theory Spec2Isabelle
  imports Main
begin

unbundle bit_operations_syntax

section \<open>Python values, exceptions and the world outside the driver\<close>

text \<open>
  The driver of \<^verbatim>\<open>ironic/manager/ipmi.py\<close> is embedded as functions that pass a
  \<open>world\<close> (file system, trace of executed commands, log) and the controller object
  \<open>self\<close> explicitly. Exceptions are values of type \<open>exn\<close>; a function that can raise
  returns \<open>Inl\<close> of the exception together with the world it leaves behind.
\<close>

datatype pyval = PyNone | PyStr string | PyInt int

datatype exn =
    InvalidParameterValue string
  | KeyError string
  | TypeError
  | UnboundLocalError
  | ProcessExecutionError
  | LoopingCallDone

text \<open>
  Modelled from the spec: \<^verbatim>\<open>ironic.common.states\<close> is not among the sources. The
  driver uses its constants \<^verbatim>\<open>ACTIVE\<close>, \<^verbatim>\<open>DELETED\<close> (the "OFF" state) and
  \<^verbatim>\<open>ERROR\<close>, three distinct values.
\<close>

datatype power_state = ACTIVE | DELETED | ERROR

record inode =
  mode :: nat
  content :: string

text \<open>One invocation of \<^verbatim>\<open>utils.execute\<close>: the positional arguments and the keywords.\<close>

record call =
  cmd :: "pyval list"
  attempts :: nat
  shell :: bool
  run_as_root :: bool
  check_exit_code :: "int list"

datatype exec_result = Completed string string | Failed

datatype log_entry = LogDebug string | LogWarn string | LogException string

record conf =
  terminal :: string
  terminal_cert_dir :: "string option"
  terminal_pid_dir :: string
  ipmi_power_retry :: int

text \<open>
  The environment fixes what the external collaborators answer: the outcome of the
  \<open>k\<close>-th command execution and what that process does to the file system, the name
  the \<open>k\<close>-th \<^verbatim>\<open>tempfile.mkstemp\<close> picks, and the file mode creation mask and the ids
  of the running process.
\<close>

record env =
  execute :: "nat \<Rightarrow> call \<Rightarrow> exec_result"
  execute_files :: "nat \<Rightarrow> call \<Rightarrow> (string \<rightharpoonup> inode) \<Rightarrow> (string \<rightharpoonup> inode)"
  mkstemp_name :: "nat \<Rightarrow> string"
  umask :: nat
  getuid :: nat
  getgid :: nat

record world =
  files :: "string \<rightharpoonup> inode"
  calls :: "call list"
  made :: nat
  logs :: "log_entry list"
  deleted :: "string list"
  file_states :: "(string \<times> inode) list"
  ticks :: nat

text \<open>
  \<open>calls\<close> lists the command executions in order, \<open>made\<close> counts the temporary files
  created so far, \<open>deleted\<close> lists the paths handed to \<^verbatim>\<open>utils.delete_if_exists\<close>
  in order, \<open>file_states\<close> lists the state of a file after each creation, change of mode
  and write by the driver, in order, \<open>ticks\<close> counts the invocations of a callback by the
  looping call.
\<close>

text \<open>The controller object: the attributes \<^verbatim>\<open>__init__\<close> assigns.\<close>

record ipmi =
  state :: "power_state option"
  retries :: "int option"
  node_id :: pyval
  address :: pyval
  user :: pyval
  password :: pyval
  port :: pyval

type_synonym node = "string \<rightharpoonup> pyval"

type_synonym 'a result = "(exn + 'a) \<times> world"

section \<open>Python primitives the driver relies on\<close>

fun str_nat :: "nat \<Rightarrow> string" where
  "str_nat n =
     (if n < 10 then [char_of (48 + n)]
      else str_nat (n div 10) @ [char_of (48 + n mod 10)])"

declare str_nat.simps [simp del]

definition str_int :: "int \<Rightarrow> string" where
  "str_int i = (if i < 0 then CHR ''-'' # str_nat (nat (- i)) else str_nat (nat i))"

text \<open>\<^verbatim>\<open>str(x)\<close> and \<^verbatim>\<open>"%s" % x\<close>.\<close>

fun py_str :: "pyval \<Rightarrow> string" where
  "py_str PyNone = ''None''"
| "py_str (PyStr s) = s"
| "py_str (PyInt i) = str_int i"


text \<open>\<^verbatim>\<open>s.split(" ")\<close>: every single space separates; empty pieces are kept.\<close>

fun split_on :: "char \<Rightarrow> string \<Rightarrow> string list" where
  "split_on c [] = [[]]"
| "split_on c (x # xs) =
     (if x = c then [] # split_on c xs
      else (case split_on c xs of
              [] \<Rightarrow> [[x]]
            | y # ys \<Rightarrow> (x # y) # ys))"


text \<open>\<^verbatim>\<open>os.path.join(a, b)\<close> on POSIX.\<close>

definition path_join :: "string \<Rightarrow> string \<Rightarrow> string" where
  "path_join a b =
     (if b \<noteq> [] \<and> hd b = CHR ''/'' then b
      else if a = [] \<or> last a = CHR ''/'' then a @ b
      else a @ CHR ''/'' # b)"

text \<open>
  \<^verbatim>\<open>int(s)\<close> on a byte string: surrounding white space is dropped, one sign is
  allowed, and what remains must be one or more decimal digits; anything else is a
  \<^verbatim>\<open>ValueError\<close>, here \<open>None\<close>.
\<close>

definition is_space :: "char \<Rightarrow> bool" where
  "is_space c = (c \<in> set [CHR '' '', CHR 0x09, CHR 0x0A, CHR 0x0B, CHR 0x0C, CHR 0x0D])"

definition is_digit :: "char \<Rightarrow> bool" where
  "is_digit c = (48 \<le> (of_char c :: nat) \<and> (of_char c :: nat) \<le> 57)"

definition strip :: "string \<Rightarrow> string" where
  "strip s = rev (dropWhile is_space (rev (dropWhile is_space s)))"

definition digits_value :: "string \<Rightarrow> int" where
  "digits_value ds = foldl (\<lambda>acc c. 10 * acc + (of_char c - 48)) 0 ds"

definition parse_digits :: "string \<Rightarrow> int option" where
  "parse_digits ds = (if ds \<noteq> [] \<and> list_all is_digit ds then Some (digits_value ds) else None)"

definition py_int :: "string \<Rightarrow> int option" where
  "py_int s =
     (case strip s of
        [] \<Rightarrow> None
      | c # cs \<Rightarrow>
          if c = CHR ''-'' then map_option uminus (parse_digits cs)
          else if c = CHR ''+'' then parse_digits cs
          else parse_digits (c # cs))"

section \<open>Collaborators that are not part of the driver\<close>

definition log :: "log_entry \<Rightarrow> world \<Rightarrow> world" where
  "log l w = w\<lparr>logs := logs w @ [l]\<rparr>"

text \<open>
  Modelled from the spec: \<^verbatim>\<open>utils.execute\<close> (the CommandRunner) is not among the
  sources. It executes an argument vector and returns the captured output or fails
  with an execution error; the environment decides which, and what the process does
  to the file system.
\<close>

definition utils_execute :: "env \<Rightarrow> call \<Rightarrow> world \<Rightarrow> (string \<times> string) result" where
  "utils_execute e c w =
     (let k = length (calls w);
          w' = w\<lparr>calls := calls w @ [c], files := execute_files e k c (files w)\<rparr>
      in case execute e k c of
           Completed out err \<Rightarrow> (Inr (out, err), w')
         | Failed \<Rightarrow> (Inl ProcessExecutionError, w'))"

text \<open>
  Modelled from the spec: \<^verbatim>\<open>utils.delete_if_exists\<close> is not among the sources.
  Deletion is idempotent: deleting a path that does not exist is not an error.
\<close>

definition delete_if_exists :: "string \<Rightarrow> world \<Rightarrow> world" where
  "delete_if_exists p w = w\<lparr>files := (files w)(p := None), deleted := deleted w @ [p]\<rparr>"

text \<open>
  Modelled from the spec: \<^verbatim>\<open>loopingcall.FixedIntervalLoopingCall\<close> (the
  PeriodicPoller) is not among the sources. \<^verbatim>\<open>timer.start(interval).wait()\<close> runs
  the callback again and again until it raises \<^verbatim>\<open>LoopingCallDone\<close>; any other
  exception of the callback ends the loop too and is raised by \<^verbatim>\<open>wait()\<close>. A
  callback that never raises keeps the caller waiting for ever: the value \<open>None\<close>.
\<close>

partial_function (option) looping_call ::
  "(ipmi \<Rightarrow> world \<Rightarrow> (exn + unit) \<times> ipmi \<times> world) \<Rightarrow> ipmi \<Rightarrow> world
     \<Rightarrow> ((exn + unit) \<times> ipmi \<times> world) option" where
  "looping_call f self w =
     (case f self (w\<lparr>ticks := Suc (ticks w)\<rparr>) of
        (Inl e, self', w') \<Rightarrow>
          if e = LoopingCallDone then Some (Inr (), self', w') else Some (Inl e, self', w')
      | (Inr u, self', w') \<Rightarrow> looping_call f self' w')"

text \<open>
  \<^verbatim>\<open>tempfile.mkstemp()\<close>: a new, empty file, opened with mode 0600 (which is 384), of
  which the operating system clears the bits set in the mask (\<^verbatim>\<open>0600 & ~umask\<close>; 511
  is 0777).
\<close>

definition mkstemp_mode :: "env \<Rightarrow> nat" where
  "mkstemp_mode e = 384 AND (umask e XOR 511)"

definition mkstemp :: "env \<Rightarrow> world \<Rightarrow> string \<times> world" where
  "mkstemp e w =
     (let p = mkstemp_name e (made w);
          f = \<lparr>mode = mkstemp_mode e, content = []\<rparr>
      in (p, w\<lparr>files := (files w)(p \<mapsto> f), made := Suc (made w),
               file_states := file_states w @ [(p, f)]\<rparr>))"

text \<open>\<^verbatim>\<open>stat.S_IRUSR\<close> is 0400 and \<^verbatim>\<open>stat.S_IWUSR\<close> is 0200.\<close>

definition S_IRUSR :: nat where
  "S_IRUSR = 256"

definition S_IWUSR :: nat where
  "S_IWUSR = 128"

text \<open>\<^verbatim>\<open>os.fchmod(fd, m)\<close>; the descriptor is named by the path it was opened at.\<close>

definition fchmod :: "string \<Rightarrow> nat \<Rightarrow> world \<Rightarrow> world" where
  "fchmod p m w =
     (case files w p of
        None \<Rightarrow> w
      | Some f \<Rightarrow> w\<lparr>files := (files w)(p \<mapsto> f\<lparr>mode := m\<rparr>),
                    file_states := file_states w @ [(p, f\<lparr>mode := m\<rparr>)]\<rparr>)"

text \<open>
  \<^verbatim>\<open>with os.fdopen(fd, "w") as f: f.write(x)\<close>: a string is written, anything else
  is a \<^verbatim>\<open>TypeError\<close>; the file is closed either way.
\<close>

definition fdopen_write :: "string \<Rightarrow> pyval \<Rightarrow> world \<Rightarrow> unit result" where
  "fdopen_write p x w =
     (case x of
        PyStr s \<Rightarrow>
          (case files w p of
             None \<Rightarrow> (Inr (), w)
           | Some f \<Rightarrow>
               (Inr (), w\<lparr>files := (files w)(p \<mapsto> f\<lparr>content := content f @ s\<rparr>),
                         file_states := file_states w @ [(p, f\<lparr>content := content f @ s\<rparr>)]\<rparr>))
      | _ \<Rightarrow> (Inl TypeError, w))"

section \<open>The driver\<close>

definition make_password_file :: "env \<Rightarrow> pyval \<Rightarrow> world \<Rightarrow> string result" where
  "make_password_file e pw w =
     (let (path, w1) = mkstemp e w;
          w2 = fchmod path (S_IRUSR OR S_IWUSR) w1
      in case fdopen_write path pw w2 of
           (Inl x, w3) \<Rightarrow> (Inl x, w3)
         | (Inr u, w3) \<Rightarrow> (Inr path, w3))"

definition get_console_pid_path :: "conf \<Rightarrow> pyval \<Rightarrow> string" where
  "get_console_pid_path c nid =
     (let name = py_str nid @ ''.pid''
      in path_join (terminal_pid_dir c) name)"

definition get_console_pid :: "conf \<Rightarrow> pyval \<Rightarrow> world \<Rightarrow> int option \<times> world" where
  "get_console_pid c nid w =
     (let pid_path = get_console_pid_path c nid
      in case files w pid_path of
           Some f \<Rightarrow>
             (case py_int (content f) of
                Some n \<Rightarrow> (Some n, w)
              | None \<Rightarrow>
                  (None, log (LogWarn (''pid file '' @ pid_path @ '' does not contain any pid'')) w))
         | None \<Rightarrow> (None, w))"

definition getitem :: "node \<Rightarrow> string \<Rightarrow> exn + pyval" where
  "getitem nd k = (case nd k of None \<Rightarrow> Inl (KeyError k) | Some v \<Rightarrow> Inr v)"

definition IPMI_init :: "node \<Rightarrow> exn + ipmi" where
  "IPMI_init nd =
     (case getitem nd ''id'' of Inl x \<Rightarrow> Inl x | Inr nid \<Rightarrow>
      case getitem nd ''pm_address'' of Inl x \<Rightarrow> Inl x | Inr addr \<Rightarrow>
      case getitem nd ''pm_user'' of Inl x \<Rightarrow> Inl x | Inr usr \<Rightarrow>
      case getitem nd ''pm_password'' of Inl x \<Rightarrow> Inl x | Inr pw \<Rightarrow>
      case getitem nd ''terminal_port'' of Inl x \<Rightarrow> Inl x | Inr prt \<Rightarrow>
        if nid = PyNone then Inl (InvalidParameterValue ''Node id not supplied to IPMI'')
        else if addr = PyNone then Inl (InvalidParameterValue ''Address not supplied to IPMI'')
        else if usr = PyNone then Inl (InvalidParameterValue ''User not supplied to IPMI'')
        else if pw = PyNone then Inl (InvalidParameterValue ''Password not supplied to IPMI'')
        else Inr \<lparr>state = None, retries = None, node_id = nid, address = addr,
                  user = usr, password = pw, port = prt\<rparr>)"

text \<open>The call \<^verbatim>\<open>utils.execute(*args, attempts=3)\<close> that \<^verbatim>\<open>_exec_ipmitool\<close> builds.\<close>

definition ipmitool_call :: "ipmi \<Rightarrow> string \<Rightarrow> string \<Rightarrow> call" where
  "ipmitool_call self pwfile command =
     \<lparr>cmd = [PyStr ''ipmitool'', PyStr ''-I'', PyStr ''lanplus'', PyStr ''-H'', address self,
             PyStr ''-U'', user self, PyStr ''-f'']
            @ [PyStr pwfile] @ map PyStr (split_on CHR '' '' command),
      attempts = 3, shell = False, run_as_root = False, check_exit_code = [0]\<rparr>"

definition exec_ipmitool :: "env \<Rightarrow> ipmi \<Rightarrow> string \<Rightarrow> world \<Rightarrow> (string \<times> string) result" where
  "exec_ipmitool e self command w =
     (case make_password_file e (password self) w of
        (Inl x, w1) \<Rightarrow> (Inl x, w1)
      | (Inr pwfile, w1) \<Rightarrow>
          (case utils_execute e (ipmitool_call self pwfile command) w1 of
             (Inl x, w2) \<Rightarrow> (Inl x, delete_if_exists pwfile w2)
           | (Inr (out, err), w2) \<Rightarrow>
               (Inr (out, err),
                delete_if_exists pwfile
                  (log (LogDebug (''ipmitool stdout: '' @ [CHR 0x27] @ out @ [CHR 0x27]
                                  @ '', stderr: '' @ [CHR 0x27] @ err @ [CHR 0x27])) w2))))"

definition is_power :: "env \<Rightarrow> ipmi \<Rightarrow> string \<Rightarrow> world \<Rightarrow> bool result" where
  "is_power e self st w =
     (case exec_ipmitool e self ''power status'' w of
        (Inl x, w1) \<Rightarrow> (Inl x, w1)
      | (Inr out_err, w1) \<Rightarrow> (Inr (fst out_err = ''Chassis Power is '' @ st @ ''\<newline>''), w1))"

text \<open>
  \<^verbatim>\<open>self.retries > CONF.ipmi_power_retry\<close>: while \<^verbatim>\<open>retries\<close> is still
  \<^verbatim>\<open>None\<close> the comparison is false (Python 2 orders \<^verbatim>\<open>None\<close> below every number).
\<close>

definition retries_exceed :: "int option \<Rightarrow> int \<Rightarrow> bool" where
  "retries_exceed r n = (case r of None \<Rightarrow> False | Some k \<Rightarrow> k > n)"

text \<open>
  The \<^verbatim>\<open>try\<close> block of the two callbacks: \<^verbatim>\<open>self.retries += 1\<close> (a
  \<^verbatim>\<open>TypeError\<close> on \<^verbatim>\<open>None\<close>), then the command; every exception is logged and dropped.
\<close>

definition try_command :: "env \<Rightarrow> string \<Rightarrow> string \<Rightarrow> ipmi \<Rightarrow> world \<Rightarrow> ipmi \<times> world" where
  "try_command e command msg self w =
     (case retries self of
        None \<Rightarrow> (self, log (LogException msg) w)
      | Some r \<Rightarrow>
          (let self' = self\<lparr>retries := Some (r + 1)\<rparr>
           in case exec_ipmitool e self' command w of
                (Inl x, w1) \<Rightarrow> (self', log (LogException msg) w1)
              | (Inr oe, w1) \<Rightarrow> (self', w1)))"

definition wait_for_power_on ::
  "conf \<Rightarrow> env \<Rightarrow> ipmi \<Rightarrow> world \<Rightarrow> (exn + unit) \<times> ipmi \<times> world" where
  "wait_for_power_on c e self w =
     (case is_power e self ''on'' w of
        (Inl x, w1) \<Rightarrow> (Inl x, self, w1)
      | (Inr on, w1) \<Rightarrow>
          if on then (Inl LoopingCallDone, self\<lparr>state := Some ACTIVE\<rparr>, w1)
          else if retries_exceed (retries self) (ipmi_power_retry c)
          then (Inl LoopingCallDone, self\<lparr>state := Some ERROR\<rparr>, w1)
          else (let (self', w2) = try_command e ''power on'' ''IPMI power on failed'' self w1
                in (Inr (), self', w2)))"

definition power_on :: "conf \<Rightarrow> env \<Rightarrow> ipmi \<Rightarrow> world \<Rightarrow> ((exn + unit) \<times> ipmi \<times> world) option" where
  "power_on c e self w = looping_call (wait_for_power_on c e) (self\<lparr>retries := Some 0\<rparr>) w"

definition wait_for_power_off ::
  "conf \<Rightarrow> env \<Rightarrow> ipmi \<Rightarrow> world \<Rightarrow> (exn + unit) \<times> ipmi \<times> world" where
  "wait_for_power_off c e self w =
     (case is_power e self ''off'' w of
        (Inl x, w1) \<Rightarrow> (Inl x, self, w1)
      | (Inr off, w1) \<Rightarrow>
          if off then (Inl LoopingCallDone, self\<lparr>state := Some DELETED\<rparr>, w1)
          else if retries_exceed (retries self) (ipmi_power_retry c)
          then (Inl LoopingCallDone, self\<lparr>state := Some ERROR\<rparr>, w1)
          else (let (self', w2) = try_command e ''power off'' ''IPMI power off failed'' self w1
                in (Inr (), self', w2)))"

definition power_off :: "conf \<Rightarrow> env \<Rightarrow> ipmi \<Rightarrow> world \<Rightarrow> ((exn + unit) \<times> ipmi \<times> world) option" where
  "power_off c e self w = looping_call (wait_for_power_off c e) (self\<lparr>retries := Some 0\<rparr>) w"

definition set_pxe_for_next_boot :: "env \<Rightarrow> ipmi \<Rightarrow> world \<Rightarrow> world" where
  "set_pxe_for_next_boot e self w =
     (case exec_ipmitool e self ''chassis bootdev pxe'' w of
        (Inl x, w1) \<Rightarrow> log (LogException ''IPMI set next bootdev failed'') w1
      | (Inr oe, w1) \<Rightarrow> w1)"

text \<open>What a power operation hands back: the exception, or \<^verbatim>\<open>self.state\<close>.\<close>

definition return_state ::
  "((exn + unit) \<times> ipmi \<times> world) option \<Rightarrow> ((exn + power_state option) \<times> ipmi \<times> world) option" where
  "return_state r =
     (case r of
        None \<Rightarrow> None
      | Some (Inl x, self, w) \<Rightarrow> Some (Inl x, self, w)
      | Some (Inr u, self, w) \<Rightarrow> Some (Inr (state self), self, w))"

definition activate_node ::
  "conf \<Rightarrow> env \<Rightarrow> ipmi \<Rightarrow> world \<Rightarrow> ((exn + power_state option) \<times> ipmi \<times> world) option" where
  "activate_node c e self w =
     (case is_power e self ''on'' w of
        (Inl x, w1) \<Rightarrow> Some (Inl x, self, w1)
      | (Inr on, w1) \<Rightarrow>
          (let w2 = (if on \<and> state self = Some ACTIVE
                     then log (LogWarn (''Activate node called, but node '' @ py_str (address self)
                                        @ '' is already active'')) w1
                     else w1);
               w3 = set_pxe_for_next_boot e self w2
           in return_state (power_on c e self w3)))"

definition reboot_node ::
  "conf \<Rightarrow> env \<Rightarrow> ipmi \<Rightarrow> world \<Rightarrow> ((exn + power_state option) \<times> ipmi \<times> world) option" where
  "reboot_node c e self w =
     (case power_off c e self w of
        None \<Rightarrow> None
      | Some (Inl x, self1, w1) \<Rightarrow> Some (Inl x, self1, w1)
      | Some (Inr u, self1, w1) \<Rightarrow>
          return_state (power_on c e self1 (set_pxe_for_next_boot e self1 w1)))"

definition deactivate_node ::
  "conf \<Rightarrow> env \<Rightarrow> ipmi \<Rightarrow> world \<Rightarrow> ((exn + power_state option) \<times> ipmi \<times> world) option" where
  "deactivate_node c e self w = return_state (power_off c e self w)"

definition is_power_on :: "env \<Rightarrow> ipmi \<Rightarrow> world \<Rightarrow> bool result" where
  "is_power_on e self w = is_power e self ''on'' w"




text \<open>The call \<^verbatim>\<open>utils.execute('kill', '-TERM', str(pid), ...)\<close> of \<^verbatim>\<open>stop_console\<close>.\<close>

definition kill_call :: "int \<Rightarrow> call" where
  "kill_call pid =
     \<lparr>cmd = [PyStr ''kill'', PyStr ''-TERM'', PyStr (str_int pid)],
      attempts = 1, shell = False, run_as_root = True, check_exit_code = [0, 99]\<rparr>"

definition stop_console :: "conf \<Rightarrow> env \<Rightarrow> ipmi \<Rightarrow> world \<Rightarrow> unit result" where
  "stop_console c e self w =
     (let (console_pid, w1) = get_console_pid c (node_id self) w;
          pid_path = get_console_pid_path c (node_id self)
      in if console_pid \<noteq> None \<and> console_pid \<noteq> Some 0
         then (case utils_execute e (kill_call (the console_pid)) w1 of
                 (Inl x, w2) \<Rightarrow> (Inl x, w2)
               | (Inr oe, w2) \<Rightarrow> (Inr (), delete_if_exists pid_path w2))
         else (Inr (), delete_if_exists pid_path w1))"

section \<open>Notions used to state the properties\<close>

text \<open>
  The two polling callbacks have one shape: the state asked for, the state recorded on
  success, the corrective command and the message logged when that command fails.
\<close>

definition wait_for_power ::
  "string \<Rightarrow> power_state \<Rightarrow> string \<Rightarrow> string \<Rightarrow> conf \<Rightarrow> env \<Rightarrow> ipmi \<Rightarrow> world
     \<Rightarrow> (exn + unit) \<times> ipmi \<times> world" where
  "wait_for_power st ok command msg c e self w =
     (case is_power e self st w of
        (Inl x, w1) \<Rightarrow> (Inl x, self, w1)
      | (Inr b, w1) \<Rightarrow>
          if b then (Inl LoopingCallDone, self\<lparr>state := Some ok\<rparr>, w1)
          else if retries_exceed (retries self) (ipmi_power_retry c)
          then (Inl LoopingCallDone, self\<lparr>state := Some ERROR\<rparr>, w1)
          else (let (self', w2) = try_command e command msg self w1
                in (Inr (), self', w2)))"

text \<open>The sub-command of an \<^verbatim>\<open>ipmitool\<close> call: what follows the nine leading arguments.\<close>

definition subcommand :: "call \<Rightarrow> pyval list" where
  "subcommand cl = drop 9 (cmd cl)"

text \<open>The executions of the sub-command \<open>command\<close> among the calls \<open>cs\<close>.\<close>

definition issued :: "string \<Rightarrow> call list \<Rightarrow> call list" where
  "issued command cs = filter (\<lambda>cl. subcommand cl = map PyStr (split_on CHR '' '' command)) cs"

text \<open>The calls made between the world \<open>w\<close> and the later world \<open>w'\<close>.\<close>

definition new_calls :: "world \<Rightarrow> world \<Rightarrow> call list" where
  "new_calls w w' = drop (length (calls w)) (calls w')"

text \<open>
  The states the file at \<open>p\<close> goes through when it is created with mode \<open>m\<close>, given the
  mode \<^verbatim>\<open>S_IRUSR | S_IWUSR\<close> and then written with \<open>s\<close>.
\<close>

definition secret_states :: "string \<Rightarrow> nat \<Rightarrow> string \<Rightarrow> (string \<times> inode) list" where
  "secret_states p m s =
     [(p, \<lparr>mode = m, content = []\<rparr>),
      (p, \<lparr>mode = S_IRUSR OR S_IWUSR, content = []\<rparr>),
      (p, \<lparr>mode = S_IRUSR OR S_IWUSR, content = s\<rparr>)]"

text \<open>The line \<^verbatim>\<open>"Chassis Power is %s\n" % state\<close>.\<close>

definition status_line :: "string \<Rightarrow> string" where
  "status_line st = ''Chassis Power is '' @ st @ ''\<newline>''"

text \<open>
  The status query of the \<open>k\<close>-th execution, for the controller \<open>self\<close> and whatever
  password file: what the environment answers to it.
\<close>

definition status_answer :: "env \<Rightarrow> ipmi \<Rightarrow> nat \<Rightarrow> string \<Rightarrow> exec_result" where
  "status_answer e self k pwfile = execute e k (ipmitool_call self pwfile ''power status'')"

section \<open>Concrete inputs\<close>

text \<open>The configuration with the defaults of the options.\<close>

definition conf0 :: conf where
  "conf0 = \<lparr>terminal = ''shellinaboxd'', terminal_cert_dir = None,
            terminal_pid_dir = ''/var/lib/ironic/baremetal/console'', ipmi_power_retry = 5\<rparr>"

text \<open>
  An environment in which every command execution has the same outcome; the mask is the
  usual 022 (which is 18).
\<close>

definition env_answer :: "exec_result \<Rightarrow> env" where
  "env_answer r =
     \<lparr>execute = (\<lambda>k cl. r), execute_files = (\<lambda>k cl fs. fs),
      mkstemp_name = (\<lambda>k. ''/tmp/tmp'' @ str_nat k), umask = 18, getuid = 0,
      getgid = 0\<rparr>"

definition env_on :: env where
  "env_on = env_answer (Completed ''Chassis Power is on\<newline>'' [])"

definition env_off :: env where
  "env_off = env_answer (Completed ''Chassis Power is off\<newline>'' [])"

definition env_fail :: env where
  "env_fail = env_answer Failed"

text \<open>
  An environment in which the status query always answers "off" and every other command
  execution fails.
\<close>

definition env_flaky :: env where
  "env_flaky =
     \<lparr>execute = (\<lambda>k cl. if subcommand cl = [PyStr ''power'', PyStr ''status'']
                          then Completed ''Chassis Power is off\<newline>'' [] else Failed),
      execute_files = (\<lambda>k cl fs. fs),
      mkstemp_name = (\<lambda>k. ''/tmp/tmp'' @ str_nat k), umask = 18, getuid = 0,
      getgid = 0\<rparr>"

definition node0 :: node where
  "node0 = [''id'' \<mapsto> PyInt 123, ''pm_address'' \<mapsto> PyStr ''10.0.0.7'',
            ''pm_user'' \<mapsto> PyStr ''admin'', ''pm_password'' \<mapsto> PyStr ''secret'',
            ''terminal_port'' \<mapsto> PyInt 8080]"

definition self0 :: ipmi where
  "self0 = \<lparr>state = None, retries = None, node_id = PyInt 123, address = PyStr ''10.0.0.7'',
            user = PyStr ''admin'', password = PyStr ''secret'', port = PyInt 8080\<rparr>"

definition w0 :: world where
  "w0 = \<lparr>files = Map.empty, calls = [], made = 0, logs = [], deleted = [], file_states = [],
          ticks = 0\<rparr>"

text \<open>The world in which the pid record of \<open>self0\<close> holds the text \<open>s\<close>.\<close>

definition w_pid :: "string \<Rightarrow> world" where
  "w_pid s = w0\<lparr>files := [get_console_pid_path conf0 (node_id self0) \<mapsto> \<lparr>mode = 420, content = s\<rparr>]\<rparr>"

section \<open>One command execution\<close>

lemma or_modes: "S_IRUSR OR S_IWUSR = 384"
  by (simp add: S_IRUSR_def S_IWUSR_def)

lemma make_password_file_str:
  "make_password_file e (PyStr pw) w =
     (Inr (mkstemp_name e (made w)),
      w\<lparr>files := (files w)(mkstemp_name e (made w) \<mapsto> \<lparr>mode = 384, content = pw\<rparr>),
        made := Suc (made w),
        file_states := file_states w @ secret_states (mkstemp_name e (made w)) (mkstemp_mode e) pw\<rparr>)"
  by (simp add: make_password_file_def mkstemp_def fchmod_def fdopen_write_def or_modes Let_def
      secret_states_def)

lemma exec_ipmitool_str:
  assumes "password self = PyStr pw"
  shows "exec_ipmitool e self command w =
     (let p = mkstemp_name e (made w);
          cl = ipmitool_call self p command;
          k = length (calls w);
          fs = (execute_files e k cl ((files w)(p \<mapsto> \<lparr>mode = 384, content = pw\<rparr>)))(p := None)
      in case execute e k cl of
           Completed out err \<Rightarrow>
             (Inr (out, err),
              w\<lparr>files := fs, calls := calls w @ [cl], made := Suc (made w),
                deleted := deleted w @ [p],
                file_states := file_states w @ secret_states p (mkstemp_mode e) pw,
                logs := logs w @ [LogDebug (''ipmitool stdout: '' @ [CHR 0x27] @ out @ [CHR 0x27]
                                  @ '', stderr: '' @ [CHR 0x27] @ err @ [CHR 0x27])]\<rparr>)
         | Failed \<Rightarrow>
             (Inl ProcessExecutionError,
              w\<lparr>files := fs, calls := calls w @ [cl], made := Suc (made w),
                deleted := deleted w @ [p],
                file_states := file_states w @ secret_states p (mkstemp_mode e) pw\<rparr>))"
  using assms
  by (simp add: exec_ipmitool_def make_password_file_str utils_execute_def delete_if_exists_def
      log_def Let_def split: exec_result.splits)


lemma make_password_file_not_str:
  assumes "\<forall>s. pw \<noteq> PyStr s"
  shows "make_password_file e pw w =
     (Inl TypeError,
      w\<lparr>files := (files w)(mkstemp_name e (made w) \<mapsto> \<lparr>mode = 384, content = []\<rparr>),
        made := Suc (made w),
        file_states := file_states w
          @ [(mkstemp_name e (made w), \<lparr>mode = mkstemp_mode e, content = []\<rparr>),
             (mkstemp_name e (made w), \<lparr>mode = 384, content = []\<rparr>)]\<rparr>)"
  using assms
  by (cases pw) (simp_all add: make_password_file_def mkstemp_def fchmod_def fdopen_write_def or_modes Let_def)

lemma exec_ipmitool_not_str:
  assumes "\<forall>s. password self \<noteq> PyStr s"
  shows "exec_ipmitool e self command w =
     (Inl TypeError,
      w\<lparr>files := (files w)(mkstemp_name e (made w) \<mapsto> \<lparr>mode = 384, content = []\<rparr>),
        made := Suc (made w),
        file_states := file_states w
          @ [(mkstemp_name e (made w), \<lparr>mode = mkstemp_mode e, content = []\<rparr>),
             (mkstemp_name e (made w), \<lparr>mode = 384, content = []\<rparr>)]\<rparr>)"
  by (simp add: exec_ipmitool_def make_password_file_not_str [OF assms])

lemma exec_ipmitool_ticks [simp]: "ticks (snd (exec_ipmitool e self command w)) = ticks w"
proof (cases "\<exists>s. password self = PyStr s")
  case True
  then obtain s where "password self = PyStr s" by blast
  then show ?thesis
    by (simp add: exec_ipmitool_str Let_def split: exec_result.splits)
next
  case False
  then show ?thesis by (simp add: exec_ipmitool_not_str)
qed

lemma is_power_snd: "snd (is_power e self st w) = snd (exec_ipmitool e self ''power status'' w)"
  by (simp add: is_power_def split: prod.splits sum.splits)

lemma is_power_ticks [simp]: "ticks (snd (is_power e self st w)) = ticks w"
  by (simp add: is_power_snd)

lemma try_command_ticks [simp]: "ticks (snd (try_command e command msg self w)) = ticks w"
proof (cases "retries self")
  case None
  then show ?thesis by (simp add: try_command_def log_def)
next
  case (Some r)
  obtain out w1 where ex: "exec_ipmitool e (self\<lparr>retries := Some (r + 1)\<rparr>) command w = (out, w1)"
    by (cases "exec_ipmitool e (self\<lparr>retries := Some (r + 1)\<rparr>) command w") auto
  have "ticks (snd (exec_ipmitool e (self\<lparr>retries := Some (r + 1)\<rparr>) command w)) = ticks w"
    by simp
  with ex have "ticks w1 = ticks w" by simp
  with Some ex show ?thesis
    by (cases out) (simp_all add: try_command_def log_def Let_def)
qed

lemma try_command_self:
  "retries self = Some r \<Longrightarrow> fst (try_command e command msg self w) = self\<lparr>retries := Some (r + 1)\<rparr>"
  by (simp add: try_command_def Let_def split: prod.splits sum.splits)

lemma wait_for_power_ticks [simp]:
  "ticks (snd (snd (wait_for_power st ok command msg c e self w))) = ticks w"
proof -
  obtain out w1 where ip: "is_power e self st w = (out, w1)"
    by (cases "is_power e self st w") auto
  have "ticks (snd (is_power e self st w)) = ticks w" by simp
  with ip have t1: "ticks w1 = ticks w" by simp
  have "ticks (snd (try_command e command msg self w1)) = ticks w1" by simp
  with t1 ip show ?thesis
    by (cases out) (simp_all add: wait_for_power_def Let_def split: prod.splits)
qed

lemma wait_for_power_continue:
  assumes "retries self = Some r"
    and "wait_for_power st ok command msg c e self w = (Inr u, self1, w1)"
  shows "r \<le> ipmi_power_retry c \<and> self1 = self\<lparr>retries := Some (r + 1)\<rparr>"
proof -
  from assms(2) obtain w0 where
    ip: "is_power e self st w = (Inr False, w0)"
    and ne: "\<not> retries_exceed (retries self) (ipmi_power_retry c)"
    and tc: "try_command e command msg self w0 = (self1, w1)"
    by (auto simp add: wait_for_power_def Let_def split: prod.splits sum.splits if_splits)
  from ne assms(1) have "r \<le> ipmi_power_retry c" by (simp add: retries_exceed_def)
  moreover from tc try_command_self [OF assms(1), of e command msg w0]
  have "self1 = self\<lparr>retries := Some (r + 1)\<rparr>" by simp
  ultimately show ?thesis by simp
qed

lemma poll_rule:
  fixes st ok command msg c e
    and step :: "ipmi \<Rightarrow> world \<Rightarrow> (exn + unit) \<times> ipmi \<times> world"
  defines "step \<equiv> wait_for_power st ok command msg c e"
  assumes r: "retries self = Some r"
    and base: "\<And>self w r x self1 w1.
        retries self = Some r \<Longrightarrow>
        step self (w\<lparr>ticks := Suc (ticks w)\<rparr>) = (Inl x, self1, w1) \<Longrightarrow>
        P self w (if x = LoopingCallDone then Inr () else Inl x, self1, w1)"
    and ind: "\<And>self w r w1 res.
        retries self = Some r \<Longrightarrow> r \<le> ipmi_power_retry c \<Longrightarrow>
        step self (w\<lparr>ticks := Suc (ticks w)\<rparr>) = (Inr (), self\<lparr>retries := Some (r + 1)\<rparr>, w1) \<Longrightarrow>
        P (self\<lparr>retries := Some (r + 1)\<rparr>) w1 res \<Longrightarrow> P self w res"
  shows "\<exists>res. looping_call step self w = Some res \<and> P self w res"
  using r
proof (induction "nat (ipmi_power_retry c + 1 - r)" arbitrary: self w r rule: less_induct)
  case less
  obtain out self1 w1 where st: "step self (w\<lparr>ticks := Suc (ticks w)\<rparr>) = (out, self1, w1)"
    by (cases "step self (w\<lparr>ticks := Suc (ticks w)\<rparr>)") auto
  show ?case
  proof (cases out)
    case (Inl x)
    with st have "looping_call step self w
        = Some (if x = LoopingCallDone then Inr () else Inl x, self1, w1)"
      by (subst looping_call.simps) simp
    moreover from base [OF less.prems] st Inl
    have "P self w (if x = LoopingCallDone then Inr () else Inl x, self1, w1)" by simp
    ultimately show ?thesis by simp
  next
    case (Inr u)
    with st wait_for_power_continue [OF less.prems, of st ok command msg c e _ u self1 w1]
    have le: "r \<le> ipmi_power_retry c" and s1: "self1 = self\<lparr>retries := Some (r + 1)\<rparr>"
      by (simp_all add: step_def)
    from le have "nat (ipmi_power_retry c + 1 - (r + 1)) < nat (ipmi_power_retry c + 1 - r)"
      by simp
    moreover have "retries self1 = Some (r + 1)" using s1 by simp
    ultimately obtain res where
      lc: "looping_call step self1 w1 = Some res" and p: "P self1 w1 res"
      using less.hyps by blast
    from st Inr have "looping_call step self w = looping_call step self1 w1"
      by (subst looping_call.simps) simp
    moreover from ind [OF less.prems le] st Inr s1 p have "P self w res" by simp
    ultimately show ?thesis using lc by simp
  qed
qed


lemma ipmitool_call_retries [simp]: "ipmitool_call (self\<lparr>retries := x\<rparr>) = ipmitool_call self"
  by (simp add: ipmitool_call_def fun_eq_iff)

lemma ipmitool_call_state [simp]: "ipmitool_call (self\<lparr>state := x\<rparr>) = ipmitool_call self"
  by (simp add: ipmitool_call_def fun_eq_iff)

lemma ipmitool_call_cong:
  "address s1 = address s2 \<Longrightarrow> user s1 = user s2 \<Longrightarrow> ipmitool_call s1 = ipmitool_call s2"
  by (simp add: ipmitool_call_def fun_eq_iff)

lemma subcommand_ipmitool_call [simp]:
  "subcommand (ipmitool_call self p command) = map PyStr (split_on CHR '' '' command)"
  by (simp add: subcommand_def ipmitool_call_def)

lemma exec_ipmitool_cong:
  assumes "password s1 = password s2" and "address s1 = address s2" and "user s1 = user s2"
  shows "exec_ipmitool e s1 = exec_ipmitool e s2"
proof (intro ext)
  fix command w
  have h: "ipmitool_call s1 = ipmitool_call s2"
    by (rule ipmitool_call_cong) (simp_all add: assms)
  show "exec_ipmitool e s1 command w = exec_ipmitool e s2 command w"
    unfolding exec_ipmitool_def h assms(1) ..
qed

lemma exec_ipmitool_retries [simp]:
  "exec_ipmitool e (self\<lparr>retries := x\<rparr>) = exec_ipmitool e self"
  by (rule exec_ipmitool_cong) simp_all

lemma exec_ipmitool_state [simp]:
  "exec_ipmitool e (self\<lparr>state := x\<rparr>) = exec_ipmitool e self"
  by (rule exec_ipmitool_cong) simp_all

lemma is_power_cong:
  assumes "password s1 = password s2" and "address s1 = address s2" and "user s1 = user s2"
  shows "is_power e s1 = is_power e s2"
proof (intro ext)
  fix st w
  have h: "exec_ipmitool e s1 = exec_ipmitool e s2"
    using assms by (rule exec_ipmitool_cong)
  show "is_power e s1 st w = is_power e s2 st w"
    unfolding is_power_def h ..
qed

lemma is_power_retries [simp]: "is_power e (self\<lparr>retries := x\<rparr>) = is_power e self"
  by (rule is_power_cong) simp_all

text \<open>The world an execution of \<open>command\<close> leaves, when the secret is a string.\<close>

lemma exec_ipmitool_calls:
  assumes "password self = PyStr pw"
  shows "calls (snd (exec_ipmitool e self command w))
       = calls w @ [ipmitool_call self (mkstemp_name e (made w)) command]"
  by (simp add: exec_ipmitool_str [OF assms] Let_def split: exec_result.splits)

lemma exec_ipmitool_made:
  assumes "password self = PyStr pw"
  shows "made (snd (exec_ipmitool e self command w)) = Suc (made w)"
  by (simp add: exec_ipmitool_str [OF assms] Let_def split: exec_result.splits)

lemma exec_ipmitool_logs:
  assumes "password self = PyStr pw"
  shows "\<exists>ls. logs (snd (exec_ipmitool e self command w)) = logs w @ ls"
  by (simp add: exec_ipmitool_str [OF assms] Let_def split: exec_result.splits)


lemma exec_ipmitool_fst:
  assumes "password self = PyStr pw"
  shows "fst (exec_ipmitool e self command w)
       = (case execute e (length (calls w)) (ipmitool_call self (mkstemp_name e (made w)) command) of
            Completed out err \<Rightarrow> Inr (out, err)
          | Failed \<Rightarrow> Inl ProcessExecutionError)"
  by (simp add: exec_ipmitool_str [OF assms] Let_def split: exec_result.splits)

lemma exec_ipmitool_set_ticks:
  "exec_ipmitool e self command (w\<lparr>ticks := t\<rparr>)
     = (fst (exec_ipmitool e self command w), (snd (exec_ipmitool e self command w))\<lparr>ticks := t\<rparr>)"
proof (cases "\<exists>s. password self = PyStr s")
  case True
  then obtain s where "password self = PyStr s" by blast
  then show ?thesis
    by (simp add: exec_ipmitool_str Let_def split: exec_result.splits)
next
  case False
  then show ?thesis by (simp add: exec_ipmitool_not_str)
qed

lemma is_power_fst:
  assumes "password self = PyStr pw"
  shows "fst (is_power e self st w)
       = (case status_answer e self (length (calls w)) (mkstemp_name e (made w)) of
            Completed out err \<Rightarrow> Inr (out = status_line st)
          | Failed \<Rightarrow> Inl ProcessExecutionError)"
proof -
  obtain r w1 where ex: "exec_ipmitool e self ''power status'' w = (r, w1)"
    by (cases "exec_ipmitool e self ''power status'' w") auto
  with exec_ipmitool_fst [OF assms, of e "''power status''" w]
  have "r = (case status_answer e self (length (calls w)) (mkstemp_name e (made w)) of
               Completed out err \<Rightarrow> Inr (out, err)
             | Failed \<Rightarrow> Inl ProcessExecutionError)"
    by (simp add: status_answer_def)
  with ex show ?thesis
    by (simp add: is_power_def status_line_def split: exec_result.splits)
qed

lemma is_power_set_ticks:
  "is_power e self st (w\<lparr>ticks := t\<rparr>)
     = (fst (is_power e self st w), (snd (is_power e self st w))\<lparr>ticks := t\<rparr>)"
  by (simp add: is_power_def exec_ipmitool_set_ticks split: prod.splits sum.splits)

section \<open>The status query\<close>

text \<open>
  Claim C4. When the status command returns, \<^verbatim>\<open>_is_power\<close> answers true exactly when
  its standard output is the line \<^verbatim>\<open>"Chassis Power is on\n"\<close> (for the state "on";
  \<^verbatim>\<open>"Chassis Power is off\n"\<close> for "off"), character for character; any other
  output gives false, not an error.
\<close>

theorem is_power_exact_match:
  assumes "password self = PyStr pw"
    and "status_answer e self (length (calls w)) (mkstemp_name e (made w)) = Completed out err"
  shows "fst (is_power e self ''on'' w) = Inr (out = ''Chassis Power is on\<newline>'')
       \<and> fst (is_power e self ''off'' w) = Inr (out = ''Chassis Power is off\<newline>'')"
  using is_power_fst [OF assms(1), of e _ w] assms(2)
  by (simp add: status_line_def)

text \<open>An output with a blank before the line end is neither "on" nor "off".\<close>

theorem is_power_exact_match_witness:
  "password self0 = PyStr ''secret''
   \<and> status_answer (env_answer (Completed ''Chassis Power is on \<newline>'' [])) self0
        (length (calls w0)) (mkstemp_name (env_answer (Completed ''Chassis Power is on \<newline>'' [])) (made w0))
      = Completed ''Chassis Power is on \<newline>'' []
   \<and> fst (is_power (env_answer (Completed ''Chassis Power is on \<newline>'' [])) self0 ''on'' w0) = Inr False
   \<and> fst (is_power (env_answer (Completed ''Chassis Power is on \<newline>'' [])) self0 ''off'' w0) = Inr False"
  using is_power_exact_match [of self0 "''secret''" "env_answer (Completed ''Chassis Power is on \<newline>'' [])"
      w0 "''Chassis Power is on \<newline>''" "[]"]
  by (simp add: self0_def status_answer_def env_answer_def)

section \<open>Construction\<close>

text \<open>
  Claim C5, as stated: construction fails with a parameter-validation error whenever one
  of the four required fields is absent, and every required field of a controller is
  non-empty. It fails on the code: a record without the key \<^verbatim>\<open>id\<close> raises
  \<^verbatim>\<open>KeyError\<close>, not \<^verbatim>\<open>InvalidParameterValue\<close>, and an empty password is accepted.
\<close>

theorem IPMI_init_counterexample:
  "IPMI_init (node0(''id'' := None)) = Inl (KeyError ''id'')
   \<and> IPMI_init (node0(''pm_password'' \<mapsto> PyStr [])) = Inr (self0\<lparr>password := PyStr []\<rparr>)"
  by (simp add: IPMI_init_def getitem_def node0_def self0_def)

text \<open>
  Claim C5, amended. For a node record that has the five keys, construction fails with
  \<^verbatim>\<open>InvalidParameterValue\<close> exactly when one of the values of \<^verbatim>\<open>id\<close>,
  \<^verbatim>\<open>pm_address\<close>, \<^verbatim>\<open>pm_user\<close>, \<^verbatim>\<open>pm_password\<close> is \<^verbatim>\<open>None\<close>; otherwise it
  gives the controller that holds the five values as they are, with state and retry
  counter unset. A failed construction gives no controller.
\<close>

theorem IPMI_init_validation:
  assumes "nd ''id'' = Some a" and "nd ''pm_address'' = Some b" and "nd ''pm_user'' = Some u"
    and "nd ''pm_password'' = Some pw" and "nd ''terminal_port'' = Some p"
  shows "if a = PyNone \<or> b = PyNone \<or> u = PyNone \<or> pw = PyNone
         then \<exists>m. IPMI_init nd = Inl (InvalidParameterValue m)
         else IPMI_init nd = Inr \<lparr>state = None, retries = None, node_id = a, address = b,
                                  user = u, password = pw, port = p\<rparr>"
  using assms by (simp add: IPMI_init_def getitem_def)

theorem IPMI_init_validation_witness:
  "node0 ''id'' = Some (PyInt 123) \<and> node0 ''pm_address'' = Some (PyStr ''10.0.0.7'')
   \<and> node0 ''pm_user'' = Some (PyStr ''admin'') \<and> node0 ''pm_password'' = Some (PyStr ''secret'')
   \<and> node0 ''terminal_port'' = Some (PyInt 8080)
   \<and> IPMI_init node0 = Inr self0
   \<and> (\<exists>m. IPMI_init (node0(''pm_user'' \<mapsto> PyNone)) = Inl (InvalidParameterValue m))"
proof -
  have k: "node0 ''id'' = Some (PyInt 123)" "node0 ''pm_address'' = Some (PyStr ''10.0.0.7'')"
    "node0 ''pm_user'' = Some (PyStr ''admin'')" "node0 ''pm_password'' = Some (PyStr ''secret'')"
    "node0 ''terminal_port'' = Some (PyInt 8080)"
    by (simp_all add: node0_def)
  have k': "(node0(''pm_user'' \<mapsto> PyNone)) ''id'' = Some (PyInt 123)"
    "(node0(''pm_user'' \<mapsto> PyNone)) ''pm_address'' = Some (PyStr ''10.0.0.7'')"
    "(node0(''pm_user'' \<mapsto> PyNone)) ''pm_user'' = Some PyNone"
    "(node0(''pm_user'' \<mapsto> PyNone)) ''pm_password'' = Some (PyStr ''secret'')"
    "(node0(''pm_user'' \<mapsto> PyNone)) ''terminal_port'' = Some (PyInt 8080)"
    by (simp_all add: node0_def)
  from IPMI_init_validation [OF k] have "IPMI_init node0 = Inr self0"
    by (simp add: self0_def)
  moreover from IPMI_init_validation [OF k']
  have "\<exists>m. IPMI_init (node0(''pm_user'' \<mapsto> PyNone)) = Inl (InvalidParameterValue m)"
    by simp
  ultimately show ?thesis using k by simp
qed

section \<open>The secret file\<close>









section \<open>Stopping the console\<close>

lemma get_console_pid_missing:
  "files w (get_console_pid_path c nid) = None \<Longrightarrow> get_console_pid c nid w = (None, w)"
  by (simp add: get_console_pid_def Let_def)

lemma get_console_pid_found:
  "files w (get_console_pid_path c nid) = Some f \<Longrightarrow> py_int (content f) = Some n \<Longrightarrow>
   get_console_pid c nid w = (Some n, w)"
  by (simp add: get_console_pid_def Let_def)

lemma get_console_pid_unparsed:
  "files w (get_console_pid_path c nid) = Some f \<Longrightarrow> py_int (content f) = None \<Longrightarrow>
   get_console_pid c nid w
     = (None, log (LogWarn (''pid file '' @ get_console_pid_path c nid
                             @ '' does not contain any pid'')) w)"
  by (simp add: get_console_pid_def Let_def)

lemma stop_console_found:
  assumes "files w (get_console_pid_path c (node_id self)) = Some f"
    and "py_int (content f) = Some n" and "n \<noteq> 0"
  shows "stop_console c e self w =
     (case execute e (length (calls w)) (kill_call n) of
        Completed out err \<Rightarrow>
          (Inr (), delete_if_exists (get_console_pid_path c (node_id self))
                     (w\<lparr>calls := calls w @ [kill_call n],
                        files := execute_files e (length (calls w)) (kill_call n) (files w)\<rparr>))
      | Failed \<Rightarrow>
          (Inl ProcessExecutionError,
           w\<lparr>calls := calls w @ [kill_call n],
             files := execute_files e (length (calls w)) (kill_call n) (files w)\<rparr>))"
  using assms
  by (simp add: stop_console_def get_console_pid_found utils_execute_def Let_def
      split: exec_result.splits)

text \<open>
  Claim C9, amended. Without a pid record for the node, \<^verbatim>\<open>stop_console\<close> executes no
  command, raises nothing and hands the pid path to \<^verbatim>\<open>delete_if_exists\<close>, which
  changes no file. With a record that holds a pid (an integer other than zero), the
  \<^verbatim>\<open>kill\<close> command is executed; when it returns, the record is deleted; when it
  fails, the execution error reaches the caller and the deletion is not attempted.
\<close>

theorem stop_console_pid_record:
  "(files w (get_console_pid_path c (node_id self)) = None \<longrightarrow>
      fst (stop_console c e self w) = Inr ()
      \<and> calls (snd (stop_console c e self w)) = calls w
      \<and> deleted (snd (stop_console c e self w)) = deleted w @ [get_console_pid_path c (node_id self)]
      \<and> files (snd (stop_console c e self w)) = files w
      \<and> logs (snd (stop_console c e self w)) = logs w)
   \<and> (\<forall>f n.
        files w (get_console_pid_path c (node_id self)) = Some f \<and> py_int (content f) = Some n
        \<and> n \<noteq> 0 \<longrightarrow>
        calls (snd (stop_console c e self w)) = calls w @ [kill_call n]
        \<and> (case execute e (length (calls w)) (kill_call n) of
              Completed out err \<Rightarrow>
                fst (stop_console c e self w) = Inr ()
                \<and> deleted (snd (stop_console c e self w))
                    = deleted w @ [get_console_pid_path c (node_id self)]
                \<and> files (snd (stop_console c e self w)) (get_console_pid_path c (node_id self)) = None
            | Failed \<Rightarrow>
                fst (stop_console c e self w) = Inl ProcessExecutionError
                \<and> deleted (snd (stop_console c e self w)) = deleted w
                \<and> files (snd (stop_console c e self w))
                    = execute_files e (length (calls w)) (kill_call n) (files w)))"
proof (intro conjI impI allI)
  assume "files w (get_console_pid_path c (node_id self)) = None"
  then have "stop_console c e self w
      = (Inr (), delete_if_exists (get_console_pid_path c (node_id self)) w)"
    by (simp add: stop_console_def get_console_pid_missing)
  moreover assume "files w (get_console_pid_path c (node_id self)) = None"
  then have "(files w)(get_console_pid_path c (node_id self) := None) = files w"
    by (simp add: fun_upd_idem)
  ultimately show "fst (stop_console c e self w) = Inr ()"
    "calls (snd (stop_console c e self w)) = calls w"
    "deleted (snd (stop_console c e self w)) = deleted w @ [get_console_pid_path c (node_id self)]"
    "files (snd (stop_console c e self w)) = files w"
    "logs (snd (stop_console c e self w)) = logs w"
    by (simp_all add: delete_if_exists_def)
next
  fix f n
  assume h: "files w (get_console_pid_path c (node_id self)) = Some f \<and> py_int (content f) = Some n
        \<and> n \<noteq> 0"
  then have eq: "stop_console c e self w =
     (case execute e (length (calls w)) (kill_call n) of
        Completed out err \<Rightarrow>
          (Inr (), delete_if_exists (get_console_pid_path c (node_id self))
                     (w\<lparr>calls := calls w @ [kill_call n],
                        files := execute_files e (length (calls w)) (kill_call n) (files w)\<rparr>))
      | Failed \<Rightarrow>
          (Inl ProcessExecutionError,
           w\<lparr>calls := calls w @ [kill_call n],
             files := execute_files e (length (calls w)) (kill_call n) (files w)\<rparr>))"
    by (simp add: stop_console_found)
  show "calls (snd (stop_console c e self w)) = calls w @ [kill_call n]"
    by (simp add: eq delete_if_exists_def split: exec_result.splits)
  show "case execute e (length (calls w)) (kill_call n) of
              Completed out err \<Rightarrow>
                fst (stop_console c e self w) = Inr ()
                \<and> deleted (snd (stop_console c e self w))
                    = deleted w @ [get_console_pid_path c (node_id self)]
                \<and> files (snd (stop_console c e self w)) (get_console_pid_path c (node_id self)) = None
            | Failed \<Rightarrow>
                fst (stop_console c e self w) = Inl ProcessExecutionError
                \<and> deleted (snd (stop_console c e self w)) = deleted w
                \<and> files (snd (stop_console c e self w))
                    = execute_files e (length (calls w)) (kill_call n) (files w)"
    by (simp add: eq delete_if_exists_def split: exec_result.splits)
qed

lemma py_int_4242: "py_int ''4242\<newline>'' = Some 4242"
  by (simp add: py_int_def strip_def is_space_def parse_digits_def is_digit_def digits_value_def)

lemma py_int_abc: "py_int ''abc'' = None"
  by (simp add: py_int_def strip_def is_space_def parse_digits_def is_digit_def digits_value_def)

lemma py_int_0: "py_int ''0'' = Some 0"
  by (simp add: py_int_def strip_def is_space_def parse_digits_def is_digit_def digits_value_def)

lemma w_pid_files:
  "files (w_pid s) (get_console_pid_path conf0 (node_id self0)) = Some \<lparr>mode = 420, content = s\<rparr>"
  by (simp add: w_pid_def)

theorem stop_console_pid_record_witness:
  "files w0 (get_console_pid_path conf0 (node_id self0)) = None
   \<and> fst (stop_console conf0 env_on self0 w0) = Inr ()
   \<and> calls (snd (stop_console conf0 env_on self0 w0)) = []
   \<and> deleted (snd (stop_console conf0 env_on self0 w0)) = [get_console_pid_path conf0 (node_id self0)]
   \<and> files (snd (stop_console conf0 env_on self0 w0)) = Map.empty
   \<and> py_int (content \<lparr>mode = 420, content = ''4242\<newline>''\<rparr>) = Some 4242
   \<and> fst (stop_console conf0 env_on self0 (w_pid ''4242\<newline>'')) = Inr ()
   \<and> calls (snd (stop_console conf0 env_on self0 (w_pid ''4242\<newline>''))) = [kill_call 4242]
   \<and> deleted (snd (stop_console conf0 env_on self0 (w_pid ''4242\<newline>'')))
       = [get_console_pid_path conf0 (node_id self0)]
   \<and> files (snd (stop_console conf0 env_on self0 (w_pid ''4242\<newline>'')))
        (get_console_pid_path conf0 (node_id self0)) = None
   \<and> fst (stop_console conf0 env_fail self0 (w_pid ''4242\<newline>'')) = Inl ProcessExecutionError
   \<and> calls (snd (stop_console conf0 env_fail self0 (w_pid ''4242\<newline>''))) = [kill_call 4242]
   \<and> deleted (snd (stop_console conf0 env_fail self0 (w_pid ''4242\<newline>''))) = []
   \<and> files (snd (stop_console conf0 env_fail self0 (w_pid ''4242\<newline>''))) = files (w_pid ''4242\<newline>'')"
proof -
  have n: "files w0 (get_console_pid_path conf0 (node_id self0)) = None"
    by (simp add: w0_def)
  have a: "fst (stop_console conf0 env_on self0 w0) = Inr ()
      \<and> calls (snd (stop_console conf0 env_on self0 w0)) = calls w0
      \<and> deleted (snd (stop_console conf0 env_on self0 w0))
          = deleted w0 @ [get_console_pid_path conf0 (node_id self0)]
      \<and> files (snd (stop_console conf0 env_on self0 w0)) = files w0
      \<and> logs (snd (stop_console conf0 env_on self0 w0)) = logs w0"
    using stop_console_pid_record [of w0 conf0 self0 env_on] n by blast
  have w: "calls w0 = []" "deleted w0 = []" "files w0 = Map.empty"
    "calls (w_pid ''4242\<newline>'') = []" "deleted (w_pid ''4242\<newline>'') = []"
    by (simp_all add: w_pid_def w0_def)
  have f: "files (w_pid ''4242\<newline>'') (get_console_pid_path conf0 (node_id self0))
             = Some \<lparr>mode = 420, content = ''4242\<newline>''\<rparr>
           \<and> py_int (content \<lparr>mode = 420, content = ''4242\<newline>''\<rparr>) = Some 4242
           \<and> (4242 :: int) \<noteq> 0"
    by (simp add: w_pid_files py_int_4242)
  have kon: "execute env_on (length (calls (w_pid ''4242\<newline>''))) (kill_call 4242)
      = Completed ''Chassis Power is on\<newline>'' []"
    by (simp add: env_on_def env_answer_def)
  have kfail: "execute env_fail (length (calls (w_pid ''4242\<newline>''))) (kill_call 4242) = Failed"
    "execute_files env_fail (length (calls (w_pid ''4242\<newline>''))) (kill_call 4242)
       (files (w_pid ''4242\<newline>'')) = files (w_pid ''4242\<newline>'')"
    by (simp_all add: env_fail_def env_answer_def)
  from stop_console_pid_record [of "w_pid ''4242\<newline>''" conf0 self0 env_on] f
  have b: "calls (snd (stop_console conf0 env_on self0 (w_pid ''4242\<newline>'')))
        = calls (w_pid ''4242\<newline>'') @ [kill_call 4242]
      \<and> (case execute env_on (length (calls (w_pid ''4242\<newline>''))) (kill_call 4242) of
              Completed out err \<Rightarrow>
                fst (stop_console conf0 env_on self0 (w_pid ''4242\<newline>'')) = Inr ()
                \<and> deleted (snd (stop_console conf0 env_on self0 (w_pid ''4242\<newline>'')))
                    = deleted (w_pid ''4242\<newline>'') @ [get_console_pid_path conf0 (node_id self0)]
                \<and> files (snd (stop_console conf0 env_on self0 (w_pid ''4242\<newline>'')))
                     (get_console_pid_path conf0 (node_id self0)) = None
            | Failed \<Rightarrow>
                fst (stop_console conf0 env_on self0 (w_pid ''4242\<newline>'')) = Inl ProcessExecutionError
                \<and> deleted (snd (stop_console conf0 env_on self0 (w_pid ''4242\<newline>'')))
                    = deleted (w_pid ''4242\<newline>'')
                \<and> files (snd (stop_console conf0 env_on self0 (w_pid ''4242\<newline>'')))
                    = execute_files env_on (length (calls (w_pid ''4242\<newline>''))) (kill_call 4242)
                        (files (w_pid ''4242\<newline>'')))"
    by blast
  from stop_console_pid_record [of "w_pid ''4242\<newline>''" conf0 self0 env_fail] f
  have c: "calls (snd (stop_console conf0 env_fail self0 (w_pid ''4242\<newline>'')))
        = calls (w_pid ''4242\<newline>'') @ [kill_call 4242]
      \<and> (case execute env_fail (length (calls (w_pid ''4242\<newline>''))) (kill_call 4242) of
              Completed out err \<Rightarrow>
                fst (stop_console conf0 env_fail self0 (w_pid ''4242\<newline>'')) = Inr ()
                \<and> deleted (snd (stop_console conf0 env_fail self0 (w_pid ''4242\<newline>'')))
                    = deleted (w_pid ''4242\<newline>'') @ [get_console_pid_path conf0 (node_id self0)]
                \<and> files (snd (stop_console conf0 env_fail self0 (w_pid ''4242\<newline>'')))
                     (get_console_pid_path conf0 (node_id self0)) = None
            | Failed \<Rightarrow>
                fst (stop_console conf0 env_fail self0 (w_pid ''4242\<newline>'')) = Inl ProcessExecutionError
                \<and> deleted (snd (stop_console conf0 env_fail self0 (w_pid ''4242\<newline>'')))
                    = deleted (w_pid ''4242\<newline>'')
                \<and> files (snd (stop_console conf0 env_fail self0 (w_pid ''4242\<newline>'')))
                    = execute_files env_fail (length (calls (w_pid ''4242\<newline>''))) (kill_call 4242)
                        (files (w_pid ''4242\<newline>'')))"
    by blast
  from n a b c w f show ?thesis
    unfolding kon kfail by simp
qed

text \<open>
  Claim C9, as stated: when a pid is found, the pid record is deleted unconditionally
  after the signal step. It fails on the code: \<^verbatim>\<open>stop_console\<close> has no \<^verbatim>\<open>try\<close>
  block, so a \<^verbatim>\<open>kill\<close> that fails raises before \<^verbatim>\<open>delete_if_exists\<close> is reached
  and the record stays.
\<close>

theorem stop_console_kill_fails_counterexample:
  "files (w_pid ''4242\<newline>'') (get_console_pid_path conf0 (node_id self0))
     = Some \<lparr>mode = 420, content = ''4242\<newline>''\<rparr>
   \<and> get_console_pid conf0 (node_id self0) (w_pid ''4242\<newline>'') = (Some 4242, w_pid ''4242\<newline>'')
   \<and> fst (stop_console conf0 env_fail self0 (w_pid ''4242\<newline>'')) = Inl ProcessExecutionError
   \<and> files (snd (stop_console conf0 env_fail self0 (w_pid ''4242\<newline>'')))
        (get_console_pid_path conf0 (node_id self0)) = Some \<lparr>mode = 420, content = ''4242\<newline>''\<rparr>
   \<and> deleted (snd (stop_console conf0 env_fail self0 (w_pid ''4242\<newline>''))) = []"
proof -
  have f: "files (w_pid ''4242\<newline>'') (get_console_pid_path conf0 (node_id self0))
     = Some \<lparr>mode = 420, content = ''4242\<newline>''\<rparr>"
    by (rule w_pid_files)
  have p: "py_int (content \<lparr>mode = 420, content = ''4242\<newline>''\<rparr>) = Some 4242"
    by (simp add: py_int_4242)
  have g: "get_console_pid conf0 (node_id self0) (w_pid ''4242\<newline>'') = (Some 4242, w_pid ''4242\<newline>'')"
    by (rule get_console_pid_found [OF f p])
  have "stop_console conf0 env_fail self0 (w_pid ''4242\<newline>'')
      = (Inl ProcessExecutionError, (w_pid ''4242\<newline>'')\<lparr>calls := calls (w_pid ''4242\<newline>'') @ [kill_call 4242]\<rparr>)"
    by (simp add: stop_console_found [OF f p] env_fail_def env_answer_def)
  with f g show ?thesis
    by (simp add: w_pid_def w0_def)
qed

text \<open>
  Claim C10. With a pid record whose content is not an integer, or is the integer 0,
  \<^verbatim>\<open>stop_console\<close> behaves as without a record: no command is executed, nothing is
  raised, the record is deleted; a warning is logged when the content is not an integer.
\<close>

theorem stop_console_bad_pid_record:
  assumes "files w (get_console_pid_path c (node_id self)) = Some f"
    and "py_int (content f) = None \<or> py_int (content f) = Some 0"
  shows "fst (stop_console c e self w) = Inr ()
       \<and> calls (snd (stop_console c e self w)) = calls w
       \<and> deleted (snd (stop_console c e self w)) = deleted w @ [get_console_pid_path c (node_id self)]
       \<and> files (snd (stop_console c e self w)) (get_console_pid_path c (node_id self)) = None
       \<and> logs (snd (stop_console c e self w))
           = logs w @ (if py_int (content f) = None
                       then [LogWarn (''pid file '' @ get_console_pid_path c (node_id self)
                                      @ '' does not contain any pid'')]
                       else [])"
proof (cases "py_int (content f)")
  case None
  with assms(1) show ?thesis
    by (simp add: stop_console_def get_console_pid_unparsed delete_if_exists_def log_def Let_def)
next
  case (Some n)
  with assms(2) have "n = 0" by simp
  with Some assms(1) show ?thesis
    by (simp add: stop_console_def get_console_pid_found delete_if_exists_def Let_def)
qed

theorem stop_console_bad_pid_record_witness:
  "files (w_pid ''abc'') (get_console_pid_path conf0 (node_id self0)) = Some \<lparr>mode = 420, content = ''abc''\<rparr>
   \<and> py_int ''abc'' = None
   \<and> fst (stop_console conf0 env_on self0 (w_pid ''abc'')) = Inr ()
   \<and> calls (snd (stop_console conf0 env_on self0 (w_pid ''abc''))) = []
   \<and> files (snd (stop_console conf0 env_on self0 (w_pid ''abc'')))
        (get_console_pid_path conf0 (node_id self0)) = None
   \<and> logs (snd (stop_console conf0 env_on self0 (w_pid ''abc'')))
        = [LogWarn (''pid file '' @ get_console_pid_path conf0 (node_id self0)
                    @ '' does not contain any pid'')]
   \<and> files (w_pid ''0'') (get_console_pid_path conf0 (node_id self0)) = Some \<lparr>mode = 420, content = ''0''\<rparr>
   \<and> py_int ''0'' = Some 0
   \<and> fst (stop_console conf0 env_on self0 (w_pid ''0'')) = Inr ()
   \<and> calls (snd (stop_console conf0 env_on self0 (w_pid ''0''))) = []
   \<and> files (snd (stop_console conf0 env_on self0 (w_pid ''0'')))
        (get_console_pid_path conf0 (node_id self0)) = None
   \<and> logs (snd (stop_console conf0 env_on self0 (w_pid ''0''))) = []"
proof -
  have c: "calls (w_pid ''abc'') = []" "logs (w_pid ''abc'') = []"
    "calls (w_pid ''0'') = []" "logs (w_pid ''0'') = []"
    by (simp_all add: w_pid_def w0_def)
  have a: "py_int (content \<lparr>mode = 420, content = ''abc''\<rparr>) = None
         \<or> py_int (content \<lparr>mode = 420, content = ''abc''\<rparr>) = Some 0"
    by (simp add: py_int_abc)
  have z: "py_int (content \<lparr>mode = 420, content = ''0''\<rparr>) = None
         \<or> py_int (content \<lparr>mode = 420, content = ''0''\<rparr>) = Some 0"
    by (simp add: py_int_0)
  from stop_console_bad_pid_record [OF w_pid_files a, of env_on]
    stop_console_bad_pid_record [OF w_pid_files z, of env_on]
    c py_int_abc py_int_0 w_pid_files [of "''abc''"] w_pid_files [of "''0''"]
  show ?thesis by simp
qed

section \<open>The polling loop\<close>

lemma wait_for_power_on_eq:
  "wait_for_power_on c e = wait_for_power ''on'' ACTIVE ''power on'' ''IPMI power on failed'' c e"
  by (simp add: fun_eq_iff wait_for_power_on_def wait_for_power_def)

lemma wait_for_power_off_eq:
  "wait_for_power_off c e = wait_for_power ''off'' DELETED ''power off'' ''IPMI power off failed'' c e"
  by (simp add: fun_eq_iff wait_for_power_off_def wait_for_power_def)

lemma is_power_not_str:
  assumes "\<forall>s. password self \<noteq> PyStr s"
  shows "fst (is_power e self st w) = Inl TypeError"
  by (simp add: is_power_def exec_ipmitool_not_str [OF assms])

lemma is_power_calls:
  assumes "password self = PyStr pw"
  shows "calls (snd (is_power e self st w))
       = calls w @ [ipmitool_call self (mkstemp_name e (made w)) ''power status'']"
  by (simp add: is_power_snd exec_ipmitool_calls [OF assms])

lemma is_power_made:
  assumes "password self = PyStr pw"
  shows "made (snd (is_power e self st w)) = Suc (made w)"
  by (simp add: is_power_snd exec_ipmitool_made [OF assms])

lemma is_power_logs:
  assumes "password self = PyStr pw"
  shows "\<exists>ls. logs (snd (is_power e self st w)) = logs w @ ls"
  by (simp add: is_power_snd exec_ipmitool_logs [OF assms])

lemma try_command_snd:
  assumes "retries self = Some r"
  shows "\<exists>ls. snd (try_command e command msg self w)
       = (snd (exec_ipmitool e self command w))
           \<lparr>logs := logs (snd (exec_ipmitool e self command w)) @ ls\<rparr>"
proof -
  obtain out w1 where ex: "exec_ipmitool e self command w = (out, w1)"
    by (cases "exec_ipmitool e self command w") auto
  show ?thesis
  proof (cases out)
    case (Inl x)
    with ex assms have "snd (try_command e command msg self w)
        = w1\<lparr>logs := logs w1 @ [LogException msg]\<rparr>"
      by (simp add: try_command_def log_def Let_def)
    with ex show ?thesis by auto
  next
    case (Inr oe)
    with ex assms have "snd (try_command e command msg self w) = w1\<lparr>logs := logs w1 @ []\<rparr>"
      by (simp add: try_command_def Let_def)
    with ex show ?thesis by (metis snd_conv)
  qed
qed

lemma try_command_calls:
  assumes "password self = PyStr pw" and "retries self = Some r"
  shows "calls (snd (try_command e command msg self w))
       = calls w @ [ipmitool_call self (mkstemp_name e (made w)) command]"
proof -
  from try_command_snd [OF assms(2), of e command msg w] obtain ls where
    "snd (try_command e command msg self w)
       = (snd (exec_ipmitool e self command w))
           \<lparr>logs := logs (snd (exec_ipmitool e self command w)) @ ls\<rparr>" ..
  then show ?thesis by (simp add: exec_ipmitool_calls [OF assms(1)])
qed

lemma try_command_made:
  assumes "password self = PyStr pw" and "retries self = Some r"
  shows "made (snd (try_command e command msg self w)) = Suc (made w)"
proof -
  from try_command_snd [OF assms(2), of e command msg w] obtain ls where
    "snd (try_command e command msg self w)
       = (snd (exec_ipmitool e self command w))
           \<lparr>logs := logs (snd (exec_ipmitool e self command w)) @ ls\<rparr>" ..
  then show ?thesis by (simp add: exec_ipmitool_made [OF assms(1)])
qed

lemma try_command_logs:
  assumes "password self = PyStr pw" and "retries self = Some r"
  shows "\<exists>ls. logs (snd (try_command e command msg self w)) = logs w @ ls"
proof -
  from try_command_snd [OF assms(2), of e command msg w] obtain ls where
    "snd (try_command e command msg self w)
       = (snd (exec_ipmitool e self command w))
           \<lparr>logs := logs (snd (exec_ipmitool e self command w)) @ ls\<rparr>" ..
  moreover from exec_ipmitool_logs [OF assms(1), of e command w] obtain ls' where
    "logs (snd (exec_ipmitool e self command w)) = logs w @ ls'" ..
  ultimately show ?thesis by simp
qed

text \<open>One invocation of the callback, when the secret is a string and the counter is set.\<close>

lemma wait_for_power_str:
  assumes "password s = PyStr pw" and "retries s = Some r"
  shows "wait_for_power st ok command msg c e s v =
     (case status_answer e s (length (calls v)) (mkstemp_name e (made v)) of
        Failed \<Rightarrow> (Inl ProcessExecutionError, s, snd (is_power e s st v))
      | Completed out err \<Rightarrow>
          if out = status_line st
          then (Inl LoopingCallDone, s\<lparr>state := Some ok\<rparr>, snd (is_power e s st v))
          else if r > ipmi_power_retry c
          then (Inl LoopingCallDone, s\<lparr>state := Some ERROR\<rparr>, snd (is_power e s st v))
          else (Inr (), s\<lparr>retries := Some (r + 1)\<rparr>,
                snd (try_command e command msg s (snd (is_power e s st v)))))"
proof -
  obtain b v1 where ip: "is_power e s st v = (b, v1)"
    by (cases "is_power e s st v") auto
  with is_power_fst [OF assms(1), of e st v]
  have b: "b = (case status_answer e s (length (calls v)) (mkstemp_name e (made v)) of
            Completed out err \<Rightarrow> Inr (out = status_line st)
          | Failed \<Rightarrow> Inl ProcessExecutionError)" by simp
  have t: "try_command e command msg s v1
      = (s\<lparr>retries := Some (r + 1)\<rparr>, snd (try_command e command msg s v1))"
    using try_command_self [OF assms(2), of e command msg v1]
    by (cases "try_command e command msg s v1") simp
  show ?thesis
    using ip b t assms(2)
    by (simp add: wait_for_power_def retries_exceed_def Let_def
        split: exec_result.splits prod.splits)
qed


lemma poll_terminates:
  assumes "retries self = Some r"
  shows "\<exists>res. looping_call (wait_for_power st ok command msg c e) self w = Some res
           \<and> ticks w < ticks (snd (snd res))
           \<and> int (ticks (snd (snd res))) \<le> int (ticks w) + max 1 (ipmi_power_retry c + 2 - r)"
proof -
  define P where "P = (\<lambda>(s :: ipmi) (v :: world) (res :: (exn + unit) \<times> ipmi \<times> world).
      \<forall>k. retries s = Some k \<longrightarrow>
        ticks v < ticks (snd (snd res))
        \<and> int (ticks (snd (snd res))) \<le> int (ticks v) + max 1 (ipmi_power_retry c + 2 - k))"
  have "\<exists>res. looping_call (wait_for_power st ok command msg c e) self w = Some res \<and> P self w res"
  proof (rule poll_rule [OF assms])
    fix s v k x s1 v1
    assume "wait_for_power st ok command msg c e s (v\<lparr>ticks := Suc (ticks v)\<rparr>) = (Inl x, s1, v1)"
    with wait_for_power_ticks [of st ok command msg c e s "v\<lparr>ticks := Suc (ticks v)\<rparr>"]
    have "ticks v1 = Suc (ticks v)" by simp
    then show "P s v (if x = LoopingCallDone then Inr () else Inl x, s1, v1)"
      by (simp add: P_def)
  next
    fix s v k v1 res
    assume k: "retries s = Some k" and le: "k \<le> ipmi_power_retry c"
      and st: "wait_for_power st ok command msg c e s (v\<lparr>ticks := Suc (ticks v)\<rparr>)
                 = (Inr (), s\<lparr>retries := Some (k + 1)\<rparr>, v1)"
      and p: "P (s\<lparr>retries := Some (k + 1)\<rparr>) v1 res"
    from st wait_for_power_ticks [of st ok command msg c e s "v\<lparr>ticks := Suc (ticks v)\<rparr>"]
    have t: "ticks v1 = Suc (ticks v)" by simp
    from p have "ticks v1 < ticks (snd (snd res))
        \<and> int (ticks (snd (snd res))) \<le> int (ticks v1) + max 1 (ipmi_power_retry c + 2 - (k + 1))"
      by (simp add: P_def)
    with t le have "ticks v < ticks (snd (snd res))
        \<and> int (ticks (snd (snd res))) \<le> int (ticks v) + max 1 (ipmi_power_retry c + 2 - k)"
      by auto
    with k show "P s v res" by (simp add: P_def)
  qed
  with assms show ?thesis by (auto simp add: P_def)
qed

lemma wait_for_power_counter:
  assumes "retries s = Some r"
  shows "case wait_for_power st ok command msg c e s v of
           (Inl x, s', v') \<Rightarrow> retries s' = Some r
         | (Inr u, s', v') \<Rightarrow> r \<le> ipmi_power_retry c \<and> retries s' = Some (r + 1)"
proof -
  obtain out s' v' where st: "wait_for_power st ok command msg c e s v = (out, s', v')"
    by (cases "wait_for_power st ok command msg c e s v") auto
  show ?thesis
  proof (cases out)
    case (Inl x)
    with st have "s' = s \<or> (\<exists>z. s' = s\<lparr>state := z\<rparr>)"
      by (auto simp add: wait_for_power_def Let_def split: prod.splits sum.splits if_splits)
    with assms have "retries s' = Some r" by auto
    with st Inl show ?thesis by simp
  next
    case (Inr u)
    with st wait_for_power_continue [OF assms, of st ok command msg c e v u s' v']
    show ?thesis by simp
  qed
qed

lemma wait_for_power_exit:
  assumes "retries s = Some r" and "ipmi_power_retry c < r"
  shows "\<exists>x. fst (wait_for_power st ok command msg c e s v) = Inl x"
  using assms
  by (auto simp add: wait_for_power_def retries_exceed_def Let_def split: prod.splits sum.splits)

text \<open>
  Claim C8. The polling loop always terminates. An invocation of the callback either
  ends the loop (completion, or an exception) and leaves the retry counter as it is, or
  finds the counter within the budget and increments it by one; with the counter above
  the budget it ends the loop. So for a budget \<open>n \<ge> 0\<close> the looping call invokes the
  callback at least once and at most \<open>n + 2\<close> times, for power-on and for power-off,
  whatever the command executions answer.
\<close>

theorem polling_terminates:
  assumes "0 \<le> ipmi_power_retry c"
  shows "(\<exists>out self' w'. power_on c e self w = Some (out, self', w')
            \<and> ticks w < ticks w' \<and> ticks w' \<le> ticks w + nat (ipmi_power_retry c) + 2)
       \<and> (\<exists>out self' w'. power_off c e self w = Some (out, self', w')
            \<and> ticks w < ticks w' \<and> ticks w' \<le> ticks w + nat (ipmi_power_retry c) + 2)
       \<and> (\<forall>s v r. retries s = Some r \<longrightarrow>
            (case wait_for_power_on c e s v of
               (Inl x, s', v') \<Rightarrow> retries s' = Some r
             | (Inr u, s', v') \<Rightarrow> r \<le> ipmi_power_retry c \<and> retries s' = Some (r + 1))
            \<and> (case wait_for_power_off c e s v of
               (Inl x, s', v') \<Rightarrow> retries s' = Some r
             | (Inr u, s', v') \<Rightarrow> r \<le> ipmi_power_retry c \<and> retries s' = Some (r + 1)))
       \<and> (\<forall>s v r. retries s = Some r \<and> ipmi_power_retry c < r \<longrightarrow>
            (\<exists>x. fst (wait_for_power_on c e s v) = Inl x)
            \<and> (\<exists>x. fst (wait_for_power_off c e s v) = Inl x))"
proof -
  have r0: "retries (self\<lparr>retries := Some 0\<rparr>) = Some 0" by simp
  have bound: "\<And>res :: (exn + unit) \<times> ipmi \<times> world.
      int (ticks (snd (snd res))) \<le> int (ticks w) + max 1 (ipmi_power_retry c + 2 - 0) \<Longrightarrow>
      ticks (snd (snd res)) \<le> ticks w + nat (ipmi_power_retry c) + 2"
    using assms by auto
  have a: "\<exists>out self' w'. power_on c e self w = Some (out, self', w')
            \<and> ticks w < ticks w' \<and> ticks w' \<le> ticks w + nat (ipmi_power_retry c) + 2"
    using poll_terminates [OF r0, of "''on''" ACTIVE "''power on''" "''IPMI power on failed''" c e w]
      bound
    unfolding power_on_def wait_for_power_on_eq
    by (metis prod.collapse)
  have b: "\<exists>out self' w'. power_off c e self w = Some (out, self', w')
            \<and> ticks w < ticks w' \<and> ticks w' \<le> ticks w + nat (ipmi_power_retry c) + 2"
    using poll_terminates [OF r0, of "''off''" DELETED "''power off''" "''IPMI power off failed''" c e w]
      bound
    unfolding power_off_def wait_for_power_off_eq
    by (metis prod.collapse)
  have c: "\<forall>s v r. retries s = Some r \<longrightarrow>
            (case wait_for_power_on c e s v of
               (Inl x, s', v') \<Rightarrow> retries s' = Some r
             | (Inr u, s', v') \<Rightarrow> r \<le> ipmi_power_retry c \<and> retries s' = Some (r + 1))
            \<and> (case wait_for_power_off c e s v of
               (Inl x, s', v') \<Rightarrow> retries s' = Some r
             | (Inr u, s', v') \<Rightarrow> r \<le> ipmi_power_retry c \<and> retries s' = Some (r + 1))"
    unfolding wait_for_power_on_eq wait_for_power_off_eq
    by (intro allI impI conjI) (rule wait_for_power_counter, assumption)+
  have d: "\<forall>s v r. retries s = Some r \<and> ipmi_power_retry c < r \<longrightarrow>
            (\<exists>x. fst (wait_for_power_on c e s v) = Inl x)
            \<and> (\<exists>x. fst (wait_for_power_off c e s v) = Inl x)"
    unfolding wait_for_power_on_eq wait_for_power_off_eq
    by (intro allI impI conjI) (rule wait_for_power_exit, simp, simp)+
  from a b c d show ?thesis by blast
qed

theorem polling_terminates_witness:
  "0 \<le> ipmi_power_retry conf0
   \<and> (\<exists>out self' w'. power_on conf0 env_off self0 w0 = Some (out, self', w')
         \<and> ticks w0 < ticks w' \<and> ticks w' \<le> ticks w0 + nat (ipmi_power_retry conf0) + 2)
   \<and> (\<exists>out self' w'. power_off conf0 env_on self0 w0 = Some (out, self', w')
         \<and> ticks w0 < ticks w' \<and> ticks w' \<le> ticks w0 + nat (ipmi_power_retry conf0) + 2)"
proof -
  have h: "0 \<le> ipmi_power_retry conf0" by (simp add: conf0_def)
  from polling_terminates [OF h, of env_off self0 w0] polling_terminates [OF h, of env_on self0 w0] h
  show ?thesis by blast
qed

section \<open>Success at the first check\<close>

lemma poll_first_check:
  assumes "fst (is_power e self st w) = Inr True"
  shows "looping_call (wait_for_power st ok command msg c e) (self\<lparr>retries := Some 0\<rparr>) w
       = Some (Inr (), self\<lparr>retries := Some 0, state := Some ok\<rparr>,
               (snd (is_power e self st w))\<lparr>ticks := Suc (ticks w)\<rparr>)"
proof -
  from assms have "is_power e self st (w\<lparr>ticks := Suc (ticks w)\<rparr>)
      = (Inr True, (snd (is_power e self st w))\<lparr>ticks := Suc (ticks w)\<rparr>)"
    by (simp add: is_power_set_ticks)
  then have "wait_for_power st ok command msg c e (self\<lparr>retries := Some 0\<rparr>)
        (w\<lparr>ticks := Suc (ticks w)\<rparr>)
      = (Inl LoopingCallDone, self\<lparr>retries := Some 0, state := Some ok\<rparr>,
         (snd (is_power e self st w))\<lparr>ticks := Suc (ticks w)\<rparr>)"
    by (simp add: wait_for_power_def)
  then show ?thesis
    by (subst looping_call.simps) simp
qed

lemma is_power_True_calls:
  assumes "fst (is_power e self st w) = Inr True"
  shows "new_calls w ((snd (is_power e self st w))\<lparr>ticks := t\<rparr>)
       = [ipmitool_call self (mkstemp_name e (made w)) ''power status'']"
proof (cases "\<exists>s. password self = PyStr s")
  case True
  then obtain s where "password self = PyStr s" by blast
  then show ?thesis by (simp add: new_calls_def is_power_calls)
next
  case False
  then have "fst (is_power e self st w) = Inl TypeError"
    by (simp add: is_power_not_str)
  with assms show ?thesis by simp
qed

lemma issued_status_on [simp]:
  "issued ''power on'' [ipmitool_call self p ''power status''] = []"
  by (simp add: issued_def)

lemma issued_status_off [simp]:
  "issued ''power off'' [ipmitool_call self p ''power status''] = []"
  by (simp add: issued_def)

text \<open>
  Claim C7. If the status query of the first polling iteration reports the target
  state, the operation returns in that iteration: the only command executed is that
  status query, no corrective command is issued, and the state recorded is
  \<^verbatim>\<open>ACTIVE\<close> for power-on and \<^verbatim>\<open>DELETED\<close> for power-off, which
  \<^verbatim>\<open>deactivate_node\<close> returns.
\<close>

theorem first_check_success:
  "(fst (is_power e self ''on'' w) = Inr True \<longrightarrow>
      (\<exists>w'. power_on c e self w
               = Some (Inr (), self\<lparr>retries := Some 0, state := Some ACTIVE\<rparr>, w')
          \<and> ticks w' = Suc (ticks w)
          \<and> new_calls w w' = [ipmitool_call self (mkstemp_name e (made w)) ''power status'']
          \<and> issued ''power on'' (new_calls w w') = []))
   \<and> (fst (is_power e self ''off'' w) = Inr True \<longrightarrow>
      (\<exists>w'. power_off c e self w
               = Some (Inr (), self\<lparr>retries := Some 0, state := Some DELETED\<rparr>, w')
          \<and> deactivate_node c e self w
               = Some (Inr (Some DELETED), self\<lparr>retries := Some 0, state := Some DELETED\<rparr>, w')
          \<and> ticks w' = Suc (ticks w)
          \<and> new_calls w w' = [ipmitool_call self (mkstemp_name e (made w)) ''power status'']
          \<and> issued ''power off'' (new_calls w w') = []))"
proof (intro conjI impI)
  assume h: "fst (is_power e self ''on'' w) = Inr True"
  from poll_first_check [OF h, of ACTIVE "''power on''" "''IPMI power on failed''" c]
  have "power_on c e self w
      = Some (Inr (), self\<lparr>retries := Some 0, state := Some ACTIVE\<rparr>,
              (snd (is_power e self ''on'' w))\<lparr>ticks := Suc (ticks w)\<rparr>)"
    by (simp add: power_on_def wait_for_power_on_eq)
  with is_power_True_calls [OF h, of "Suc (ticks w)"]
  show "\<exists>w'. power_on c e self w
               = Some (Inr (), self\<lparr>retries := Some 0, state := Some ACTIVE\<rparr>, w')
          \<and> ticks w' = Suc (ticks w)
          \<and> new_calls w w' = [ipmitool_call self (mkstemp_name e (made w)) ''power status'']
          \<and> issued ''power on'' (new_calls w w') = []"
    by simp
next
  assume h: "fst (is_power e self ''off'' w) = Inr True"
  from poll_first_check [OF h, of DELETED "''power off''" "''IPMI power off failed''" c]
  have "power_off c e self w
      = Some (Inr (), self\<lparr>retries := Some 0, state := Some DELETED\<rparr>,
              (snd (is_power e self ''off'' w))\<lparr>ticks := Suc (ticks w)\<rparr>)"
    by (simp add: power_off_def wait_for_power_off_eq)
  with is_power_True_calls [OF h, of "Suc (ticks w)"]
  show "\<exists>w'. power_off c e self w
               = Some (Inr (), self\<lparr>retries := Some 0, state := Some DELETED\<rparr>, w')
          \<and> deactivate_node c e self w
               = Some (Inr (Some DELETED), self\<lparr>retries := Some 0, state := Some DELETED\<rparr>, w')
          \<and> ticks w' = Suc (ticks w)
          \<and> new_calls w w' = [ipmitool_call self (mkstemp_name e (made w)) ''power status'']
          \<and> issued ''power off'' (new_calls w w') = []"
    by (simp add: deactivate_node_def return_state_def)
qed

text \<open>What the status query answers in the environments \<open>env_on\<close> and \<open>env_off\<close>.\<close>

lemma self0_password: "password self0 = PyStr ''secret''"
  by (simp add: self0_def)

lemma env_on_on: "fst (is_power env_on self0 ''on'' w) = Inr True"
  by (simp add: is_power_fst [OF self0_password] status_answer_def env_on_def env_answer_def
      status_line_def)

lemma env_on_off: "fst (is_power env_on self0 ''off'' w) = Inr False"
  by (simp add: is_power_fst [OF self0_password] status_answer_def env_on_def env_answer_def
      status_line_def)

lemma env_off_off: "fst (is_power env_off self0 ''off'' w) = Inr True"
  by (simp add: is_power_fst [OF self0_password] status_answer_def env_off_def env_answer_def
      status_line_def)

lemma env_off_on: "fst (is_power env_off self0 ''on'' w) = Inr False"
  by (simp add: is_power_fst [OF self0_password] status_answer_def env_off_def env_answer_def
      status_line_def)

theorem first_check_success_witness:
  "fst (is_power env_on self0 ''on'' w0) = Inr True
   \<and> (\<exists>w'. power_on conf0 env_on self0 w0
              = Some (Inr (), self0\<lparr>retries := Some 0, state := Some ACTIVE\<rparr>, w')
         \<and> ticks w' = Suc (ticks w0)
         \<and> issued ''power on'' (new_calls w0 w') = [])
   \<and> fst (is_power env_off self0 ''off'' w0) = Inr True
   \<and> (\<exists>w'. deactivate_node conf0 env_off self0 w0
              = Some (Inr (Some DELETED), self0\<lparr>retries := Some 0, state := Some DELETED\<rparr>, w')
         \<and> ticks w' = Suc (ticks w0)
         \<and> issued ''power off'' (new_calls w0 w') = [])"
  using first_check_success [of env_on self0 w0 conf0] first_check_success [of env_off self0 w0 conf0]
    env_on_on [of w0] env_off_off [of w0]
  by blast

section \<open>Exhausting the retries\<close>

lemma status_answer_cong:
  "address s1 = address s2 \<Longrightarrow> user s1 = user s2 \<Longrightarrow> status_answer e s1 = status_answer e s2"
  by (simp add: status_answer_def fun_eq_iff ipmitool_call_cong [of s1 s2])

lemma map_PyStr_eq [simp]: "(map PyStr xs = map PyStr ys) = (xs = ys)"
  by (rule inj_map_eq_map) (simp add: inj_on_def)

lemma issued_append [simp]: "issued command (xs @ ys) = issued command xs @ issued command ys"
  by (simp add: issued_def)

lemma issued_Cons_same [simp]:
  "issued command (ipmitool_call s p command # cs) = ipmitool_call s p command # issued command cs"
  by (simp add: issued_def)

lemma issued_Cons_status [simp]:
  "split_on CHR '' '' command \<noteq> [''power'', ''status''] \<Longrightarrow>
   issued command (ipmitool_call s p ''power status'' # cs) = issued command cs"
  by (auto simp add: issued_def)

lemma issued_Nil [simp]: "issued command [] = []"
  by (simp add: issued_def)


text \<open>
  The loop when every status query returns and none reports the state asked for: from a
  counter \<open>r\<close> it issues the corrective command once for each value of the counter up
  to the budget, then records \<^verbatim>\<open>ERROR\<close>.
\<close>

lemma poll_never_reached:
  assumes pw: "password self = PyStr pw"
    and r: "retries self = Some r" and le: "r \<le> ipmi_power_retry c + 1"
    and never: "\<And>k p. \<exists>out err. status_answer e self k p = Completed out err \<and> out \<noteq> status_line st"
    and cmd: "split_on CHR '' '' command \<noteq> [''power'', ''status'']"
  shows "\<exists>self' w'. looping_call (wait_for_power st ok command msg c e) self w
                     = Some (Inr (), self', w')
           \<and> state self' = Some ERROR
           \<and> retries self' = Some (ipmi_power_retry c + 1)
           \<and> length (issued command (new_calls w w')) = nat (ipmi_power_retry c + 1 - r)"
proof -
  define inv where "inv = (\<lambda>s :: ipmi.
      password s = password self \<and> address s = address self \<and> user s = user self)"
  define P where "P = (\<lambda>(s :: ipmi) (v :: world) (res :: (exn + unit) \<times> ipmi \<times> world).
      inv s \<longrightarrow> (\<forall>k. retries s = Some k \<and> k \<le> ipmi_power_retry c + 1 \<longrightarrow>
        fst res = Inr () \<and> state (fst (snd res)) = Some ERROR
        \<and> retries (fst (snd res)) = Some (ipmi_power_retry c + 1)
        \<and> (\<exists>cs. calls (snd (snd res)) = calls v @ cs
              \<and> length (issued command cs) = nat (ipmi_power_retry c + 1 - k))))"
  have step: "wait_for_power st ok command msg c e s v =
      (if k > ipmi_power_retry c
       then (Inl LoopingCallDone, s\<lparr>state := Some ERROR\<rparr>, snd (is_power e s st v))
       else (Inr (), s\<lparr>retries := Some (k + 1)\<rparr>,
             snd (try_command e command msg s (snd (is_power e s st v)))))"
    if "inv s" and "retries s = Some k" for s v k
  proof -
    from that(1) have p: "password s = PyStr pw" and sa: "status_answer e s = status_answer e self"
      using pw status_answer_cong [of s self e] by (simp_all add: inv_def)
    from never [of "length (calls v)" "mkstemp_name e (made v)"] obtain out err where
      "status_answer e s (length (calls v)) (mkstemp_name e (made v)) = Completed out err"
      and "out \<noteq> status_line st"
      using sa by auto
    then show ?thesis
      by (simp add: wait_for_power_str [OF p that(2)])
  qed
  have "\<exists>res. looping_call (wait_for_power st ok command msg c e) self w = Some res \<and> P self w res"
  proof (rule poll_rule [OF r])
    fix s v k x s1 v1
    assume k: "retries s = Some k"
      and st: "wait_for_power st ok command msg c e s (v\<lparr>ticks := Suc (ticks v)\<rparr>) = (Inl x, s1, v1)"
    show "P s v (if x = LoopingCallDone then Inr () else Inl x, s1, v1)"
      unfolding P_def
    proof (intro impI allI)
      fix k'
      assume i: "inv s" and "retries s = Some k' \<and> k' \<le> ipmi_power_retry c + 1"
      with k have k': "k' = k" and kle: "k \<le> ipmi_power_retry c + 1" by simp_all
      from i pw have p: "password s = PyStr pw" by (simp add: inv_def)
      from st step [OF i k, of "v\<lparr>ticks := Suc (ticks v)\<rparr>"]
      have gt: "k > ipmi_power_retry c" and x: "x = LoopingCallDone"
        and s1: "s1 = s\<lparr>state := Some ERROR\<rparr>"
        and v1: "v1 = snd (is_power e s st (v\<lparr>ticks := Suc (ticks v)\<rparr>))"
        by (simp_all split: if_splits)
      from v1 have c: "calls v1 = calls v @ [ipmitool_call s (mkstemp_name e (made v)) ''power status'']"
        by (simp add: is_power_calls [OF p])
      from gt kle have "nat (ipmi_power_retry c + 1 - k) = 0" by simp
      with c cmd have "\<exists>cs. calls v1 = calls v @ cs
          \<and> length (issued command cs) = nat (ipmi_power_retry c + 1 - k)"
        by simp
      with x s1 k gt kle k'
      show "fst (if x = LoopingCallDone then Inr () else Inl x, s1, v1) = Inr ()
          \<and> state (fst (snd (if x = LoopingCallDone then Inr () else Inl x, s1, v1))) = Some ERROR
          \<and> retries (fst (snd (if x = LoopingCallDone then Inr () else Inl x, s1, v1)))
              = Some (ipmi_power_retry c + 1)
          \<and> (\<exists>cs. calls (snd (snd (if x = LoopingCallDone then Inr () else Inl x, s1, v1)))
                     = calls v @ cs
                \<and> length (issued command cs) = nat (ipmi_power_retry c + 1 - k'))"
        by simp
    qed
  next
    fix s v k v1 res
    assume k: "retries s = Some k" and kle: "k \<le> ipmi_power_retry c"
      and st: "wait_for_power st ok command msg c e s (v\<lparr>ticks := Suc (ticks v)\<rparr>)
                 = (Inr (), s\<lparr>retries := Some (k + 1)\<rparr>, v1)"
      and p1: "P (s\<lparr>retries := Some (k + 1)\<rparr>) v1 res"
    show "P s v res"
      unfolding P_def
    proof (intro impI allI)
      fix k'
      assume i: "inv s" and "retries s = Some k' \<and> k' \<le> ipmi_power_retry c + 1"
      with k have k': "k' = k" by simp
      from i pw have p: "password s = PyStr pw" by (simp add: inv_def)
      from i have i1: "inv (s\<lparr>retries := Some (k + 1)\<rparr>)" by (simp add: inv_def)
      from st step [OF i k, of "v\<lparr>ticks := Suc (ticks v)\<rparr>"] kle
      have v1: "v1 = snd (try_command e command msg s
                       (snd (is_power e s st (v\<lparr>ticks := Suc (ticks v)\<rparr>))))"
        by simp
      have c: "calls v1 = calls v @ [ipmitool_call s (mkstemp_name e (made v)) ''power status'',
                                     ipmitool_call s (mkstemp_name e (Suc (made v))) command]"
        by (simp add: v1 try_command_calls [OF p k] is_power_calls [OF p] is_power_made [OF p])
      from p1 i1 kle obtain cs where
        r1: "fst res = Inr ()" "state (fst (snd res)) = Some ERROR"
          "retries (fst (snd res)) = Some (ipmi_power_retry c + 1)"
        and cs: "calls (snd (snd res)) = calls v1 @ cs"
          "length (issued command cs) = nat (ipmi_power_retry c + 1 - (k + 1))"
        unfolding P_def by auto
      from c cs(1) have "calls (snd (snd res))
          = calls v @ ([ipmitool_call s (mkstemp_name e (made v)) ''power status'',
                        ipmitool_call s (mkstemp_name e (Suc (made v))) command] @ cs)"
        by simp
      moreover from cs(2) kle cmd
      have "length (issued command ([ipmitool_call s (mkstemp_name e (made v)) ''power status'',
                        ipmitool_call s (mkstemp_name e (Suc (made v))) command] @ cs))
          = nat (ipmi_power_retry c + 1 - k)"
        by simp
      ultimately have "\<exists>cs. calls (snd (snd res)) = calls v @ cs
          \<and> length (issued command cs) = nat (ipmi_power_retry c + 1 - k)"
        by blast
      with r1 k'
      show "fst res = Inr () \<and> state (fst (snd res)) = Some ERROR
          \<and> retries (fst (snd res)) = Some (ipmi_power_retry c + 1)
          \<and> (\<exists>cs. calls (snd (snd res)) = calls v @ cs
                \<and> length (issued command cs) = nat (ipmi_power_retry c + 1 - k'))"
        by simp
    qed
  qed
  then obtain res where
    lc: "looping_call (wait_for_power st ok command msg c e) self w = Some res"
    and p: "P self w res" by blast
  have "inv self" by (simp add: inv_def)
  with p r le obtain cs where
    r1: "fst res = Inr ()" "state (fst (snd res)) = Some ERROR"
      "retries (fst (snd res)) = Some (ipmi_power_retry c + 1)"
    and cs: "calls (snd (snd res)) = calls w @ cs"
      "length (issued command cs) = nat (ipmi_power_retry c + 1 - r)"
    unfolding P_def by auto
  from cs have "length (issued command (new_calls w (snd (snd res))))
      = nat (ipmi_power_retry c + 1 - r)"
    by (simp add: new_calls_def)
  with lc r1 show ?thesis
    by (cases res) auto
qed


text \<open>
  Claim C1. For every retry budget \<open>n \<ge> 0\<close>: if every status query returns an output
  other than the line of the target state, the power-on polling and the power-off
  polling terminate after exactly \<open>n + 1\<close> executions of the corrective command, with
  the counter at \<open>n + 1\<close> and the state \<^verbatim>\<open>ERROR\<close>, which \<^verbatim>\<open>deactivate_node\<close>
  returns.
\<close>

theorem retries_exhausted:
  assumes "0 \<le> ipmi_power_retry c" and "password self = PyStr pw"
  shows "((\<forall>k p. \<exists>out err. status_answer e self k p = Completed out err
                         \<and> out \<noteq> ''Chassis Power is on\<newline>'') \<longrightarrow>
          (\<exists>self' w'. power_on c e self w = Some (Inr (), self', w')
             \<and> state self' = Some ERROR
             \<and> retries self' = Some (ipmi_power_retry c + 1)
             \<and> length (issued ''power on'' (new_calls w w')) = nat (ipmi_power_retry c) + 1))
       \<and> ((\<forall>k p. \<exists>out err. status_answer e self k p = Completed out err
                         \<and> out \<noteq> ''Chassis Power is off\<newline>'') \<longrightarrow>
          (\<exists>self' w'. power_off c e self w = Some (Inr (), self', w')
             \<and> deactivate_node c e self w = Some (Inr (Some ERROR), self', w')
             \<and> state self' = Some ERROR
             \<and> retries self' = Some (ipmi_power_retry c + 1)
             \<and> length (issued ''power off'' (new_calls w w')) = nat (ipmi_power_retry c) + 1))"
proof (intro conjI impI)
  assume "\<forall>k p. \<exists>out err. status_answer e self k p = Completed out err
                         \<and> out \<noteq> ''Chassis Power is on\<newline>''"
  then have never: "\<And>k p. \<exists>out err. status_answer e (self\<lparr>retries := Some 0\<rparr>) k p = Completed out err
                         \<and> out \<noteq> status_line ''on''"
    by (simp add: status_line_def status_answer_def)
  have n: "nat (ipmi_power_retry c + 1 - 0) = nat (ipmi_power_retry c) + 1"
    using assms(1) by simp
  from poll_never_reached [of "self\<lparr>retries := Some 0\<rparr>" pw 0 c e "''on''" "''power on''"
      ACTIVE "''IPMI power on failed''" w, OF _ _ _ never] assms n
  show "\<exists>self' w'. power_on c e self w = Some (Inr (), self', w')
             \<and> state self' = Some ERROR
             \<and> retries self' = Some (ipmi_power_retry c + 1)
             \<and> length (issued ''power on'' (new_calls w w')) = nat (ipmi_power_retry c) + 1"
    by (simp add: power_on_def wait_for_power_on_eq)
next
  assume "\<forall>k p. \<exists>out err. status_answer e self k p = Completed out err
                         \<and> out \<noteq> ''Chassis Power is off\<newline>''"
  then have never: "\<And>k p. \<exists>out err. status_answer e (self\<lparr>retries := Some 0\<rparr>) k p = Completed out err
                         \<and> out \<noteq> status_line ''off''"
    by (simp add: status_line_def status_answer_def)
  have n: "nat (ipmi_power_retry c + 1 - 0) = nat (ipmi_power_retry c) + 1"
    using assms(1) by simp
  from poll_never_reached [of "self\<lparr>retries := Some 0\<rparr>" pw 0 c e "''off''" "''power off''"
      DELETED "''IPMI power off failed''" w, OF _ _ _ never] assms n
  obtain self' w' where "power_off c e self w = Some (Inr (), self', w')"
    "state self' = Some ERROR" "retries self' = Some (ipmi_power_retry c + 1)"
    "length (issued ''power off'' (new_calls w w')) = nat (ipmi_power_retry c) + 1"
    by (auto simp add: power_off_def wait_for_power_off_eq)
  then show "\<exists>self' w'. power_off c e self w = Some (Inr (), self', w')
             \<and> deactivate_node c e self w = Some (Inr (Some ERROR), self', w')
             \<and> state self' = Some ERROR
             \<and> retries self' = Some (ipmi_power_retry c + 1)
             \<and> length (issued ''power off'' (new_calls w w')) = nat (ipmi_power_retry c) + 1"
    by (simp add: deactivate_node_def return_state_def)
qed

lemma env_off_never_on:
  "\<forall>k p. \<exists>out err. status_answer env_off self0 k p = Completed out err
                         \<and> out \<noteq> ''Chassis Power is on\<newline>''"
  by (simp add: status_answer_def env_off_def env_answer_def)

lemma env_on_never_off:
  "\<forall>k p. \<exists>out err. status_answer env_on self0 k p = Completed out err
                         \<and> out \<noteq> ''Chassis Power is off\<newline>''"
  by (simp add: status_answer_def env_on_def env_answer_def)

text \<open>The default budget 5 gives six power-on commands; the budget 0 gives one.\<close>

theorem retries_exhausted_witness:
  "0 \<le> ipmi_power_retry conf0 \<and> password self0 = PyStr ''secret''
   \<and> (\<forall>k p. \<exists>out err. status_answer env_off self0 k p = Completed out err
                         \<and> out \<noteq> ''Chassis Power is on\<newline>'')
   \<and> (\<exists>self' w'. power_on conf0 env_off self0 w0 = Some (Inr (), self', w')
         \<and> state self' = Some ERROR \<and> retries self' = Some 6
         \<and> length (issued ''power on'' (new_calls w0 w')) = 6)
   \<and> 0 \<le> ipmi_power_retry (conf0\<lparr>ipmi_power_retry := 0\<rparr>)
   \<and> (\<forall>k p. \<exists>out err. status_answer env_on self0 k p = Completed out err
                         \<and> out \<noteq> ''Chassis Power is off\<newline>'')
   \<and> (\<exists>self' w'. deactivate_node (conf0\<lparr>ipmi_power_retry := 0\<rparr>) env_on self0 w0
                     = Some (Inr (Some ERROR), self', w')
         \<and> retries self' = Some 1
         \<and> length (issued ''power off'' (new_calls w0 w')) = 1)"
proof -
  have h5: "0 \<le> ipmi_power_retry conf0" by (simp add: conf0_def)
  have h0: "0 \<le> ipmi_power_retry (conf0\<lparr>ipmi_power_retry := 0\<rparr>)" by simp
  from retries_exhausted [OF h5 self0_password, of env_off w0] env_off_never_on
  have a: "\<exists>self' w'. power_on conf0 env_off self0 w0 = Some (Inr (), self', w')
         \<and> state self' = Some ERROR \<and> retries self' = Some 6
         \<and> length (issued ''power on'' (new_calls w0 w')) = 6"
    by (simp add: conf0_def)
  from retries_exhausted [OF h0 self0_password, of env_on w0] env_on_never_off
  have b: "\<exists>self' w'. deactivate_node (conf0\<lparr>ipmi_power_retry := 0\<rparr>) env_on self0 w0
                     = Some (Inr (Some ERROR), self', w')
         \<and> retries self' = Some 1
         \<and> length (issued ''power off'' (new_calls w0 w')) = 1"
    by auto
  from a b h5 h0 self0_password env_off_never_on env_on_never_off show ?thesis
    by blast
qed

section \<open>What a power operation returns\<close>

text \<open>
  The loop when every status query returns: it ends without an exception, in the
  success state or, with the counter above the budget, in \<^verbatim>\<open>ERROR\<close>.
\<close>

lemma poll_status_returns:
  assumes pw: "password self = PyStr pw" and r: "retries self = Some r"
    and ok: "\<And>k p. status_answer e self k p \<noteq> Failed"
  shows "\<exists>self' w'. looping_call (wait_for_power st okst command msg c e) self w
                     = Some (Inr (), self', w')
           \<and> (state self' = Some okst
                \<or> state self' = Some ERROR \<and> retries_exceed (retries self') (ipmi_power_retry c))
           \<and> password self' = password self \<and> address self' = address self
           \<and> user self' = user self"
proof -
  define inv where "inv = (\<lambda>s :: ipmi.
      password s = password self \<and> address s = address self \<and> user s = user self)"
  define P where "P = (\<lambda>(s :: ipmi) (v :: world) (res :: (exn + unit) \<times> ipmi \<times> world).
      inv s \<longrightarrow>
        fst res = Inr ()
        \<and> (state (fst (snd res)) = Some okst
             \<or> state (fst (snd res)) = Some ERROR
                \<and> retries_exceed (retries (fst (snd res))) (ipmi_power_retry c))
        \<and> inv (fst (snd res)))"
  have step: "\<exists>out err. wait_for_power st okst command msg c e s v =
      (if out = status_line st
       then (Inl LoopingCallDone, s\<lparr>state := Some okst\<rparr>, snd (is_power e s st v))
       else if k > ipmi_power_retry c
       then (Inl LoopingCallDone, s\<lparr>state := Some ERROR\<rparr>, snd (is_power e s st v))
       else (Inr (), s\<lparr>retries := Some (k + 1)\<rparr>,
             snd (try_command e command msg s (snd (is_power e s st v)))))"
    if "inv s" and "retries s = Some k" for s v k
  proof -
    from that(1) have p: "password s = PyStr pw" and sa: "status_answer e s = status_answer e self"
      using pw status_answer_cong [of s self e] by (simp_all add: inv_def)
    from ok [of "length (calls v)" "mkstemp_name e (made v)"] obtain out err where
      "status_answer e s (length (calls v)) (mkstemp_name e (made v)) = Completed out err"
      using sa by (cases "status_answer e self (length (calls v)) (mkstemp_name e (made v))") auto
    then have "wait_for_power st okst command msg c e s v =
      (if out = status_line st
       then (Inl LoopingCallDone, s\<lparr>state := Some okst\<rparr>, snd (is_power e s st v))
       else if k > ipmi_power_retry c
       then (Inl LoopingCallDone, s\<lparr>state := Some ERROR\<rparr>, snd (is_power e s st v))
       else (Inr (), s\<lparr>retries := Some (k + 1)\<rparr>,
             snd (try_command e command msg s (snd (is_power e s st v)))))"
      by (simp add: wait_for_power_str [OF p that(2)])
    then show ?thesis by blast
  qed
  have "\<exists>res. looping_call (wait_for_power st okst command msg c e) self w = Some res \<and> P self w res"
  proof (rule poll_rule [OF r])
    fix s v k x s1 v1
    assume k: "retries s = Some k"
      and st: "wait_for_power st okst command msg c e s (v\<lparr>ticks := Suc (ticks v)\<rparr>) = (Inl x, s1, v1)"
    show "P s v (if x = LoopingCallDone then Inr () else Inl x, s1, v1)"
      unfolding P_def
    proof (intro impI)
      assume i: "inv s"
      from step [OF i k, of "v\<lparr>ticks := Suc (ticks v)\<rparr>"] st
      have "x = LoopingCallDone
          \<and> (s1 = s\<lparr>state := Some okst\<rparr> \<or> s1 = s\<lparr>state := Some ERROR\<rparr> \<and> k > ipmi_power_retry c)"
        by (auto split: if_splits)
      with i k
      show "fst (if x = LoopingCallDone then Inr () else Inl x, s1, v1) = Inr ()
        \<and> (state (fst (snd (if x = LoopingCallDone then Inr () else Inl x, s1, v1))) = Some okst
             \<or> state (fst (snd (if x = LoopingCallDone then Inr () else Inl x, s1, v1))) = Some ERROR
                \<and> retries_exceed (retries (fst (snd (if x = LoopingCallDone then Inr () else Inl x, s1, v1))))
                     (ipmi_power_retry c))
        \<and> inv (fst (snd (if x = LoopingCallDone then Inr () else Inl x, s1, v1)))"
        by (auto simp add: inv_def retries_exceed_def)
    qed
  next
    fix s v k v1 res
    assume "P (s\<lparr>retries := Some (k + 1)\<rparr>) v1 res"
    then show "P s v res"
      by (simp add: P_def inv_def)
  qed
  then obtain res where
    lc: "looping_call (wait_for_power st okst command msg c e) self w = Some res"
    and p: "P self w res" by blast
  have "inv self" by (simp add: inv_def)
  with p have "fst res = Inr ()"
    "state (fst (snd res)) = Some okst
       \<or> state (fst (snd res)) = Some ERROR
          \<and> retries_exceed (retries (fst (snd res))) (ipmi_power_retry c)"
    "inv (fst (snd res))"
    by (simp_all add: P_def)
  with lc show ?thesis
    by (cases res) (auto simp add: inv_def)
qed


lemma power_on_status_returns:
  assumes "password self = PyStr pw" and "\<And>k p. status_answer e self k p \<noteq> Failed"
  shows "\<exists>self' w'. power_on c e self w = Some (Inr (), self', w')
           \<and> (state self' = Some ACTIVE
                \<or> state self' = Some ERROR \<and> retries_exceed (retries self') (ipmi_power_retry c))
           \<and> password self' = password self \<and> address self' = address self
           \<and> user self' = user self"
proof -
  have ok: "\<And>k p. status_answer e (self\<lparr>retries := Some 0\<rparr>) k p \<noteq> Failed"
    using assms(2) by (simp add: status_answer_def)
  from poll_status_returns [of "self\<lparr>retries := Some 0\<rparr>" pw 0 e "''on''" ACTIVE "''power on''"
      "''IPMI power on failed''" c w, OF _ _ ok] assms(1)
  show ?thesis by (simp add: power_on_def wait_for_power_on_eq)
qed

lemma power_off_status_returns:
  assumes "password self = PyStr pw" and "\<And>k p. status_answer e self k p \<noteq> Failed"
  shows "\<exists>self' w'. power_off c e self w = Some (Inr (), self', w')
           \<and> (state self' = Some DELETED
                \<or> state self' = Some ERROR \<and> retries_exceed (retries self') (ipmi_power_retry c))
           \<and> password self' = password self \<and> address self' = address self
           \<and> user self' = user self"
proof -
  have ok: "\<And>k p. status_answer e (self\<lparr>retries := Some 0\<rparr>) k p \<noteq> Failed"
    using assms(2) by (simp add: status_answer_def)
  from poll_status_returns [of "self\<lparr>retries := Some 0\<rparr>" pw 0 e "''off''" DELETED "''power off''"
      "''IPMI power off failed''" c w, OF _ _ ok] assms(1)
  show ?thesis by (simp add: power_off_def wait_for_power_off_eq)
qed

text \<open>
  Claim C2, amended. Provided every execution of the status query returns, each power
  operation returns a definite terminal state and raises nothing, whatever the
  corrective and the set-next-boot commands do (their failures are caught and logged):
  \<^verbatim>\<open>activate_node\<close> and \<^verbatim>\<open>reboot_node\<close> return \<^verbatim>\<open>ACTIVE\<close> or
  \<^verbatim>\<open>ERROR\<close>, \<^verbatim>\<open>deactivate_node\<close> returns \<^verbatim>\<open>DELETED\<close> or \<^verbatim>\<open>ERROR\<close>, and
  \<^verbatim>\<open>ERROR\<close> only with the retry counter above the budget.
\<close>

theorem power_operation_returns_state:
  assumes "password self = PyStr pw" and "\<forall>k p. status_answer e self k p \<noteq> Failed"
  shows "(\<exists>self' w'. activate_node c e self w = Some (Inr (state self'), self', w')
            \<and> (state self' = Some ACTIVE
                 \<or> state self' = Some ERROR \<and> retries_exceed (retries self') (ipmi_power_retry c)))
       \<and> (\<exists>self' w'. reboot_node c e self w = Some (Inr (state self'), self', w')
            \<and> (state self' = Some ACTIVE
                 \<or> state self' = Some ERROR \<and> retries_exceed (retries self') (ipmi_power_retry c)))
       \<and> (\<exists>self' w'. deactivate_node c e self w = Some (Inr (state self'), self', w')
            \<and> (state self' = Some DELETED
                 \<or> state self' = Some ERROR \<and> retries_exceed (retries self') (ipmi_power_retry c)))"
proof (intro conjI)
  from assms(2) have ok: "\<And>k p. status_answer e self k p \<noteq> Failed" by simp
  from ok [of "length (calls w)" "mkstemp_name e (made w)"]
  obtain b where b: "fst (is_power e self ''on'' w) = Inr b"
    by (cases "status_answer e self (length (calls w)) (mkstemp_name e (made w))")
       (simp_all add: is_power_fst [OF assms(1)])
  define w3 where "w3 = set_pxe_for_next_boot e self
      (if b \<and> state self = Some ACTIVE
       then log (LogWarn (''Activate node called, but node '' @ py_str (address self)
                          @ '' is already active'')) (snd (is_power e self ''on'' w))
       else snd (is_power e self ''on'' w))"
  from b have "activate_node c e self w = return_state (power_on c e self w3)"
    by (cases "is_power e self ''on'' w") (simp add: activate_node_def w3_def Let_def)
  with power_on_status_returns [OF assms(1) ok, of c w3]
  show "\<exists>self' w'. activate_node c e self w = Some (Inr (state self'), self', w')
            \<and> (state self' = Some ACTIVE
                 \<or> state self' = Some ERROR \<and> retries_exceed (retries self') (ipmi_power_retry c))"
    by (auto simp add: return_state_def)
next
  from assms(2) have ok: "\<And>k p. status_answer e self k p \<noteq> Failed" by simp
  from power_off_status_returns [OF assms(1) ok, of c w] obtain self1 w1 where
    off: "power_off c e self w = Some (Inr (), self1, w1)"
    and inv: "password self1 = password self" "address self1 = address self" "user self1 = user self"
    by blast
  from inv assms(1) have p1: "password self1 = PyStr pw" by simp
  from inv ok status_answer_cong [of self1 self e]
  have ok1: "\<And>k p. status_answer e self1 k p \<noteq> Failed" by simp
  from off have "reboot_node c e self w
      = return_state (power_on c e self1 (set_pxe_for_next_boot e self1 w1))"
    by (simp add: reboot_node_def)
  with power_on_status_returns [OF p1 ok1, of c "set_pxe_for_next_boot e self1 w1"]
  show "\<exists>self' w'. reboot_node c e self w = Some (Inr (state self'), self', w')
            \<and> (state self' = Some ACTIVE
                 \<or> state self' = Some ERROR \<and> retries_exceed (retries self') (ipmi_power_retry c))"
    by (auto simp add: return_state_def)
next
  from assms(2) have ok: "\<And>k p. status_answer e self k p \<noteq> Failed" by simp
  from power_off_status_returns [OF assms(1) ok, of c w]
  show "\<exists>self' w'. deactivate_node c e self w = Some (Inr (state self'), self', w')
            \<and> (state self' = Some DELETED
                 \<or> state self' = Some ERROR \<and> retries_exceed (retries self') (ipmi_power_retry c))"
    by (auto simp add: deactivate_node_def return_state_def)
qed

text \<open>In \<open>env_flaky\<close> the status query returns and the corrective command fails.\<close>

lemma env_flaky_status: "\<forall>k p. status_answer env_flaky self0 k p \<noteq> Failed"
  by (simp add: status_answer_def env_flaky_def)

theorem power_operation_returns_state_witness:
  "password self0 = PyStr ''secret''
   \<and> (\<forall>k p. status_answer env_flaky self0 k p \<noteq> Failed)
   \<and> execute env_flaky 1 (ipmitool_call self0 ''/tmp/tmp1'' ''power on'') = Failed
   \<and> (\<exists>self' w'. activate_node conf0 env_flaky self0 w0 = Some (Inr (state self'), self', w')
         \<and> (state self' = Some ACTIVE
              \<or> state self' = Some ERROR \<and> retries_exceed (retries self') (ipmi_power_retry conf0)))
   \<and> (\<exists>self' w'. reboot_node conf0 env_flaky self0 w0 = Some (Inr (state self'), self', w')
         \<and> (state self' = Some ACTIVE
              \<or> state self' = Some ERROR \<and> retries_exceed (retries self') (ipmi_power_retry conf0)))
   \<and> (\<exists>self' w'. deactivate_node conf0 env_flaky self0 w0 = Some (Inr (state self'), self', w')
         \<and> (state self' = Some DELETED
              \<or> state self' = Some ERROR \<and> retries_exceed (retries self') (ipmi_power_retry conf0)))"
proof -
  have f: "execute env_flaky 1 (ipmitool_call self0 ''/tmp/tmp1'' ''power on'') = Failed"
    by (simp add: env_flaky_def)
  from power_operation_returns_state [OF self0_password env_flaky_status, of conf0 w0]
    self0_password env_flaky_status f
  show ?thesis by blast
qed

text \<open>
  Claim C2, as stated: a power operation always returns a terminal state and never
  raises for a transient command failure during polling. It fails on the code: the
  status query is executed outside the \<^verbatim>\<open>try\<close> block of the callback (and, in
  \<^verbatim>\<open>activate_node\<close>, before the loop), so when its execution fails the
  \<^verbatim>\<open>ProcessExecutionError\<close> reaches the caller.
\<close>

theorem status_failure_propagates_counterexample:
  "map_option fst (deactivate_node conf0 env_fail self0 w0) = Some (Inl ProcessExecutionError)
   \<and> map_option fst (activate_node conf0 env_fail self0 w0) = Some (Inl ProcessExecutionError)"
proof -
  have p: "password (self0\<lparr>retries := Some 0\<rparr>) = PyStr ''secret''"
    by (simp add: self0_def)
  have "fst (wait_for_power_off conf0 env_fail (self0\<lparr>retries := Some 0\<rparr>) (w0\<lparr>ticks := Suc (ticks w0)\<rparr>))
      = Inl ProcessExecutionError"
    by (simp add: wait_for_power_off_eq wait_for_power_str [OF p] status_answer_def
        env_fail_def env_answer_def)
  then have "map_option fst (power_off conf0 env_fail self0 w0) = Some (Inl ProcessExecutionError)"
    unfolding power_off_def
    by (subst looping_call.simps) (auto split: prod.splits sum.splits)
  then have a: "map_option fst (deactivate_node conf0 env_fail self0 w0)
      = Some (Inl ProcessExecutionError)"
    by (auto simp add: deactivate_node_def return_state_def split: option.splits sum.splits)
  have "fst (is_power env_fail self0 ''on'' w0) = Inl ProcessExecutionError"
    by (simp add: is_power_fst [OF self0_password] status_answer_def env_fail_def env_answer_def)
  then have b: "map_option fst (activate_node conf0 env_fail self0 w0)
      = Some (Inl ProcessExecutionError)"
    by (cases "is_power env_fail self0 ''on'' w0") (simp add: activate_node_def)
  from a b show ?thesis by simp
qed

section \<open>Activating a node that is already active\<close>

lemma set_pxe_calls:
  assumes "password self = PyStr pw"
  shows "calls (set_pxe_for_next_boot e self w)
       = calls w @ [ipmitool_call self (mkstemp_name e (made w)) ''chassis bootdev pxe'']"
proof -
  obtain out w1 where ex: "exec_ipmitool e self ''chassis bootdev pxe'' w = (out, w1)"
    by (cases "exec_ipmitool e self ''chassis bootdev pxe'' w") auto
  with exec_ipmitool_calls [OF assms, of e "''chassis bootdev pxe''" w]
  have "calls w1 = calls w @ [ipmitool_call self (mkstemp_name e (made w)) ''chassis bootdev pxe'']"
    by simp
  with ex show ?thesis
    by (cases out) (simp_all add: set_pxe_for_next_boot_def log_def)
qed

lemma set_pxe_made:
  assumes "password self = PyStr pw"
  shows "made (set_pxe_for_next_boot e self w) = Suc (made w)"
proof -
  obtain out w1 where ex: "exec_ipmitool e self ''chassis bootdev pxe'' w = (out, w1)"
    by (cases "exec_ipmitool e self ''chassis bootdev pxe'' w") auto
  with exec_ipmitool_made [OF assms, of e "''chassis bootdev pxe''" w]
  have "made w1 = Suc (made w)" by simp
  with ex show ?thesis
    by (cases out) (simp_all add: set_pxe_for_next_boot_def log_def)
qed

lemma set_pxe_logs:
  assumes "password self = PyStr pw"
  shows "\<exists>ls. logs (set_pxe_for_next_boot e self w) = logs w @ ls"
proof -
  obtain out w1 where ex: "exec_ipmitool e self ''chassis bootdev pxe'' w = (out, w1)"
    by (cases "exec_ipmitool e self ''chassis bootdev pxe'' w") auto
  with exec_ipmitool_logs [OF assms, of e "''chassis bootdev pxe''" w]
  obtain ls where "logs w1 = logs w @ ls" by auto
  with ex show ?thesis
    by (cases out) (simp_all add: set_pxe_for_next_boot_def log_def)
qed

lemma set_pxe_ticks: "ticks (set_pxe_for_next_boot e self w) = ticks w"
proof -
  obtain out w1 where ex: "exec_ipmitool e self ''chassis bootdev pxe'' w = (out, w1)"
    by (cases "exec_ipmitool e self ''chassis bootdev pxe'' w") auto
  with exec_ipmitool_ticks [of e self "''chassis bootdev pxe''" w]
  have "ticks w1 = ticks w" by simp
  with ex show ?thesis
    by (cases out) (simp_all add: set_pxe_for_next_boot_def log_def)
qed

text \<open>
  Every run of the loop starts with a status query; the calls and the log of the world
  it starts in are kept.
\<close>

lemma poll_trace:
  assumes pw: "password self = PyStr pw" and r: "retries self = Some r"
  shows "\<exists>res cs ls. looping_call (wait_for_power st ok command msg c e) self w = Some res
           \<and> calls (snd (snd res))
               = calls w @ ipmitool_call self (mkstemp_name e (made w)) ''power status'' # cs
           \<and> logs (snd (snd res)) = logs w @ ls"
proof -
  define P where "P = (\<lambda>(s :: ipmi) (v :: world) (res :: (exn + unit) \<times> ipmi \<times> world).
      password s = PyStr pw \<longrightarrow>
        (\<exists>cs ls. calls (snd (snd res))
                    = calls v @ ipmitool_call s (mkstemp_name e (made v)) ''power status'' # cs
                \<and> logs (snd (snd res)) = logs v @ ls))"
  have "\<exists>res. looping_call (wait_for_power st ok command msg c e) self w = Some res \<and> P self w res"
  proof (rule poll_rule [OF r])
    fix s v k x s1 v1
    assume k: "retries s = Some k"
      and st: "wait_for_power st ok command msg c e s (v\<lparr>ticks := Suc (ticks v)\<rparr>) = (Inl x, s1, v1)"
    show "P s v (if x = LoopingCallDone then Inr () else Inl x, s1, v1)"
      unfolding P_def
    proof (intro impI)
      assume p: "password s = PyStr pw"
      from st have v1: "v1 = snd (is_power e s st (v\<lparr>ticks := Suc (ticks v)\<rparr>))"
        by (auto simp add: wait_for_power_str [OF p k] split: exec_result.splits if_splits)
      from is_power_logs [OF p, of e st "v\<lparr>ticks := Suc (ticks v)\<rparr>"] v1
      obtain ls where "logs v1 = logs v @ ls" by auto
      moreover from v1
      have "calls v1 = calls v @ ipmitool_call s (mkstemp_name e (made v)) ''power status'' # []"
        by (simp add: is_power_calls [OF p])
      ultimately
      show "\<exists>cs ls. calls (snd (snd (if x = LoopingCallDone then Inr () else Inl x, s1, v1)))
                    = calls v @ ipmitool_call s (mkstemp_name e (made v)) ''power status'' # cs
                \<and> logs (snd (snd (if x = LoopingCallDone then Inr () else Inl x, s1, v1))) = logs v @ ls"
        by auto
    qed
  next
    fix s v k v1 res
    assume k: "retries s = Some k"
      and st: "wait_for_power st ok command msg c e s (v\<lparr>ticks := Suc (ticks v)\<rparr>)
                 = (Inr (), s\<lparr>retries := Some (k + 1)\<rparr>, v1)"
      and p1: "P (s\<lparr>retries := Some (k + 1)\<rparr>) v1 res"
    show "P s v res"
      unfolding P_def
    proof (intro impI)
      assume p: "password s = PyStr pw"
      let ?v0 = "snd (is_power e s st (v\<lparr>ticks := Suc (ticks v)\<rparr>))"
      from st have v1: "v1 = snd (try_command e command msg s ?v0)"
        by (auto simp add: wait_for_power_str [OF p k] split: exec_result.splits if_splits)
      have c: "calls v1 = calls v @ [ipmitool_call s (mkstemp_name e (made v)) ''power status'',
                                     ipmitool_call s (mkstemp_name e (Suc (made v))) command]"
        by (simp add: v1 try_command_calls [OF p k] is_power_calls [OF p] is_power_made [OF p])
      from is_power_logs [OF p, of e st "v\<lparr>ticks := Suc (ticks v)\<rparr>"]
      obtain l0 where "logs ?v0 = logs v @ l0" by auto
      moreover from try_command_logs [OF p k, of e command msg ?v0]
      obtain l1 where "logs v1 = logs ?v0 @ l1" using v1 by auto
      ultimately have l: "logs v1 = logs v @ (l0 @ l1)" by simp
      from p1 p obtain cs ls where
        "calls (snd (snd res)) = calls v1
            @ ipmitool_call s (mkstemp_name e (made v1)) ''power status'' # cs"
        "logs (snd (snd res)) = logs v1 @ ls"
        unfolding P_def by auto
      with c l have "calls (snd (snd res))
            = calls v @ ipmitool_call s (mkstemp_name e (made v)) ''power status''
                # (ipmitool_call s (mkstemp_name e (Suc (made v))) command
                   # ipmitool_call s (mkstemp_name e (made v1)) ''power status'' # cs)"
        "logs (snd (snd res)) = logs v @ (l0 @ l1 @ ls)"
        by simp_all
      then show "\<exists>cs ls. calls (snd (snd res))
                    = calls v @ ipmitool_call s (mkstemp_name e (made v)) ''power status'' # cs
                \<and> logs (snd (snd res)) = logs v @ ls"
        by blast
    qed
  qed
  with pw show ?thesis by (auto simp add: P_def)
qed


lemma return_state_Some:
  "return_state (Some (out, s, v))
     = Some (case out of Inl x \<Rightarrow> Inl x | Inr u \<Rightarrow> Inr (state s), s, v)"
  by (cases out) (simp_all add: return_state_def)

text \<open>
  Claim C6. When the node reports power on and the cached state is \<^verbatim>\<open>ACTIVE\<close>,
  \<^verbatim>\<open>activate_node\<close> does not return early: it logs the warning, then executes the
  set-next-boot command, then runs the power-on polling loop (at least one callback
  invocation, which starts with a status query) and hands back the state the loop leaves.
\<close>

theorem activate_node_no_short_circuit:
  assumes "fst (is_power e self ''on'' w) = Inr True" and "state self = Some ACTIVE"
  shows "activate_node c e self w
         = return_state (power_on c e self (set_pxe_for_next_boot e self
             (log (LogWarn (''Activate node called, but node '' @ py_str (address self)
                            @ '' is already active''))
                (snd (is_power e self ''on'' w)))))
       \<and> (\<exists>r self' w' cs. activate_node c e self w = Some (r, self', w')
            \<and> (r = Inr (state self') \<or> (\<exists>x. r = Inl x))
            \<and> LogWarn (''Activate node called, but node '' @ py_str (address self)
                        @ '' is already active'') \<in> set (logs w')
            \<and> new_calls w w'
                = ipmitool_call self (mkstemp_name e (made w)) ''power status''
                  # ipmitool_call self (mkstemp_name e (Suc (made w))) ''chassis bootdev pxe''
                  # ipmitool_call self (mkstemp_name e (Suc (Suc (made w)))) ''power status''
                  # cs
            \<and> ticks w < ticks w')"
proof -
  let ?msg = "LogWarn (''Activate node called, but node '' @ py_str (address self)
                       @ '' is already active'')"
  define w1 where "w1 = snd (is_power e self ''on'' w)"
  define w2 where "w2 = log ?msg w1"
  define w3 where "w3 = set_pxe_for_next_boot e self w2"
  from assms(1) is_power_not_str [of self e "''on''" w] obtain pw where
    pw: "password self = PyStr pw" by auto
  have p0: "password (self\<lparr>retries := Some 0\<rparr>) = PyStr pw" using pw by simp
  have r0: "retries (self\<lparr>retries := Some 0\<rparr>) = Some 0" by simp
  from assms have eq: "activate_node c e self w = return_state (power_on c e self w3)"
    by (cases "is_power e self ''on'' w") (simp add: activate_node_def w1_def w2_def w3_def)
  have c1: "calls w1 = calls w @ [ipmitool_call self (mkstemp_name e (made w)) ''power status'']"
    and m1: "made w1 = Suc (made w)" and t1: "ticks w1 = ticks w"
    by (simp_all add: w1_def is_power_calls [OF pw] is_power_made [OF pw])
  from is_power_logs [OF pw, of e "''on''" w] obtain l1 where l1: "logs w1 = logs w @ l1"
    by (auto simp add: w1_def)
  have c2: "calls w2 = calls w1" and m2: "made w2 = made w1" and t2: "ticks w2 = ticks w1"
    and l2: "logs w2 = logs w1 @ [?msg]"
    by (simp_all add: w2_def log_def)
  have c3: "calls w3 = calls w2 @ [ipmitool_call self (mkstemp_name e (made w2)) ''chassis bootdev pxe'']"
    and m3: "made w3 = Suc (made w2)" and t3: "ticks w3 = ticks w2"
    by (simp_all add: w3_def set_pxe_calls [OF pw] set_pxe_made [OF pw] set_pxe_ticks)
  from set_pxe_logs [OF pw, of e w2] obtain l3 where l3: "logs w3 = logs w2 @ l3"
    by (auto simp add: w3_def)
  from poll_trace [OF p0 r0, of "''on''" ACTIVE "''power on''" "''IPMI power on failed''" c e w3]
  obtain res cs ls where
    lc: "power_on c e self w3 = Some res"
    and cr: "calls (snd (snd res))
               = calls w3 @ ipmitool_call self (mkstemp_name e (made w3)) ''power status'' # cs"
    and lr: "logs (snd (snd res)) = logs w3 @ ls"
    by (auto simp add: power_on_def wait_for_power_on_eq)
  from poll_terminates [OF r0, of "''on''" ACTIVE "''power on''" "''IPMI power on failed''" c e w3] lc
  have tr: "ticks w3 < ticks (snd (snd res))"
    by (auto simp add: power_on_def wait_for_power_on_eq)
  obtain out s' w' where res: "res = (out, s', w')" by (cases res) auto
  from eq lc res have a: "activate_node c e self w
      = Some (case out of Inl x \<Rightarrow> Inl x | Inr u \<Rightarrow> Inr (state s'), s', w')"
    by (simp add: return_state_Some)
  have b: "(case out of Inl x \<Rightarrow> Inl x | Inr u \<Rightarrow> Inr (state s')) = Inr (state s')
      \<or> (\<exists>x. (case out of Inl x \<Rightarrow> Inl x | Inr u \<Rightarrow> Inr (state s')) = Inl x)"
    by (cases out) simp_all
  from lr l3 l2 res have lg: "?msg \<in> set (logs w')" by simp
  from cr c3 c2 c1 m1 m2 m3 res
  have nc: "new_calls w w'
      = ipmitool_call self (mkstemp_name e (made w)) ''power status''
        # ipmitool_call self (mkstemp_name e (Suc (made w))) ''chassis bootdev pxe''
        # ipmitool_call self (mkstemp_name e (Suc (Suc (made w)))) ''power status''
        # cs"
    by (simp add: new_calls_def)
  from tr t3 t2 t1 res have tk: "ticks w < ticks w'" by simp
  from eq show ?thesis
    unfolding w3_def w2_def w1_def
    using a b lg nc tk by blast
qed

lemma self0_active_on: "fst (is_power env_on (self0\<lparr>state := Some ACTIVE\<rparr>) ''on'' w) = Inr True"
  by (simp add: is_power_cong [of "self0\<lparr>state := Some ACTIVE\<rparr>" self0] env_on_on)

theorem activate_node_no_short_circuit_witness:
  "fst (is_power env_on (self0\<lparr>state := Some ACTIVE\<rparr>) ''on'' w0) = Inr True
   \<and> state (self0\<lparr>state := Some ACTIVE\<rparr>) = Some ACTIVE
   \<and> (\<exists>r self' w' cs. activate_node conf0 env_on (self0\<lparr>state := Some ACTIVE\<rparr>) w0 = Some (r, self', w')
         \<and> LogWarn ''Activate node called, but node 10.0.0.7 is already active'' \<in> set (logs w')
         \<and> map subcommand (new_calls w0 w')
             = [PyStr ''power'', PyStr ''status'']
               # [PyStr ''chassis'', PyStr ''bootdev'', PyStr ''pxe'']
               # [PyStr ''power'', PyStr ''status'']
               # map subcommand cs
         \<and> ticks w0 < ticks w')"
proof -
  have s: "state (self0\<lparr>state := Some ACTIVE\<rparr>) = Some ACTIVE" by simp
  have m: "''Activate node called, but node '' @ py_str (address (self0\<lparr>state := Some ACTIVE\<rparr>))
           @ '' is already active'' = ''Activate node called, but node 10.0.0.7 is already active''"
    by (simp add: self0_def)
  from activate_node_no_short_circuit [where e = env_on and self = "self0\<lparr>state := Some ACTIVE\<rparr>"
      and w = w0 and c = conf0, OF self0_active_on s]
  obtain r self' w' cs where
    "activate_node conf0 env_on (self0\<lparr>state := Some ACTIVE\<rparr>) w0 = Some (r, self', w')"
    "LogWarn (''Activate node called, but node '' @ py_str (address (self0\<lparr>state := Some ACTIVE\<rparr>))
              @ '' is already active'') \<in> set (logs w')"
    "new_calls w0 w'
       = ipmitool_call (self0\<lparr>state := Some ACTIVE\<rparr>) (mkstemp_name env_on (made w0)) ''power status''
         # ipmitool_call (self0\<lparr>state := Some ACTIVE\<rparr>) (mkstemp_name env_on (Suc (made w0)))
             ''chassis bootdev pxe''
         # ipmitool_call (self0\<lparr>state := Some ACTIVE\<rparr>) (mkstemp_name env_on (Suc (Suc (made w0))))
             ''power status''
         # cs"
    "ticks w0 < ticks w'"
    by blast
  then have "activate_node conf0 env_on (self0\<lparr>state := Some ACTIVE\<rparr>) w0 = Some (r, self', w')
      \<and> LogWarn ''Activate node called, but node 10.0.0.7 is already active'' \<in> set (logs w')
      \<and> map subcommand (new_calls w0 w')
             = [PyStr ''power'', PyStr ''status'']
               # [PyStr ''chassis'', PyStr ''bootdev'', PyStr ''pxe'']
               # [PyStr ''power'', PyStr ''status'']
               # map subcommand cs
      \<and> ticks w0 < ticks w'"
    using m by simp
  then have "\<exists>r self' w' cs.
      activate_node conf0 env_on (self0\<lparr>state := Some ACTIVE\<rparr>) w0 = Some (r, self', w')
      \<and> LogWarn ''Activate node called, but node 10.0.0.7 is already active'' \<in> set (logs w')
      \<and> map subcommand (new_calls w0 w')
             = [PyStr ''power'', PyStr ''status'']
               # [PyStr ''chassis'', PyStr ''bootdev'', PyStr ''pxe'']
               # [PyStr ''power'', PyStr ''status'']
               # map subcommand cs
      \<and> ticks w0 < ticks w'"
    by - ((rule exI)+, assumption)
  with self0_active_on [of w0] s show ?thesis
    by - (intro conjI, assumption+)
qed

end
